theory Spec2Isabelle
  imports Complex_Main "HOL-Library.AList"
begin

section \<open>Python values\<close>

text \<open>
  The values that travel through the executor: contexts, session configurations and the
  variables a sandboxed task leaves behind are Python dictionaries with string keys.
  A dictionary is an association list in insertion order (the order Python iterates in):
  \<open>map_of\<close> is \<open>d.get(k)\<close>, \<open>AList.update\<close> is \<open>d[k] = v\<close> (in place for a key that is
  present, appended for a new one) and \<open>AList.delete\<close> is \<open>d.pop(k, None)\<close>.
  \<open>PyObject c\<close> stands for an instance of a class \<open>c\<close> that derives from none of
  \<open>int\<close>, \<open>float\<close>, \<open>str\<close>, \<open>bool\<close>, \<open>list\<close>, \<open>tuple\<close>, \<open>dict\<close> (a set, a module, a
  function). Readings of \<open>time.time()\<close> and their differences are real numbers.
\<close>

datatype pyval =
    PyNone
  | PyBool bool
  | PyInt int
  | PyFloat real
  | PyStr string
  | PyList "pyval list"
  | PyTuple "pyval list"
  | PyDict "(string \<times> pyval) list"
  | PyObject string

type_synonym dict = "(string \<times> pyval) list"

text \<open>\<open>str(n)\<close> of a Python integer, as an f-string renders it: decimal digits, a sign
  in front of a negative number.\<close>

fun str_nat :: "nat \<Rightarrow> string" where
  "str_nat n =
     (if n < 10 then [''0123456789'' ! n]
      else str_nat (n div 10) @ [''0123456789'' ! (n mod 10)])"

definition str_int :: "int \<Rightarrow> string" where
  "str_int i = (if i < 0 then CHR ''-'' # str_nat (nat (- i)) else str_nat (nat i))"

text \<open>
  An exception object, as far as the code looks at it: \<open>type(e).__name__\<close>, \<open>str(e)\<close>,
  and whether an \<open>except asyncio.TimeoutError\<close> clause catches it. Only subclasses of
  \<open>Exception\<close> are values of this type; the code catches nothing else.
\<close>

record pyexc =
  type_name :: string
  str_of :: string
  is_asyncio_TimeoutError :: bool

definition TypeError :: "string \<Rightarrow> pyexc" where
  "TypeError msg = \<lparr>type_name = ''TypeError'', str_of = msg, is_asyncio_TimeoutError = False\<rparr>"

definition ValueError :: "string \<Rightarrow> pyexc" where
  "ValueError msg = \<lparr>type_name = ''ValueError'', str_of = msg, is_asyncio_TimeoutError = False\<rparr>"

text \<open>
  \<open>type(v).__name__\<close> and the truth value of \<open>v\<close> in an \<open>if\<close>. An object of another
  class is taken to be true, as an object is that defines neither \<open>__bool__\<close> nor
  \<open>__len__\<close>.
\<close>

fun class_name :: "pyval \<Rightarrow> string" where
  "class_name PyNone = ''NoneType''"
| "class_name (PyBool b) = ''bool''"
| "class_name (PyInt i) = ''int''"
| "class_name (PyFloat x) = ''float''"
| "class_name (PyStr s) = ''str''"
| "class_name (PyList xs) = ''list''"
| "class_name (PyTuple xs) = ''tuple''"
| "class_name (PyDict d) = ''dict''"
| "class_name (PyObject c) = c"

fun truthy :: "pyval \<Rightarrow> bool" where
  "truthy PyNone = False"
| "truthy (PyBool b) = b"
| "truthy (PyInt i) = (i \<noteq> 0)"
| "truthy (PyFloat x) = (x \<noteq> 0)"
| "truthy (PyStr s) = (s \<noteq> [])"
| "truthy (PyList xs) = (xs \<noteq> [])"
| "truthy (PyTuple xs) = (xs \<noteq> [])"
| "truthy (PyDict d) = (d \<noteq> [])"
| "truthy (PyObject c) = True"

text \<open>
  \<open>json.dumps\<close> raises \<open>TypeError\<close> at the first object, in the order it walks the value,
  that is none of \<open>None\<close>, \<open>bool\<close>, \<open>int\<close>, \<open>float\<close>, \<open>str\<close>, \<open>list\<close>, \<open>tuple\<close>, \<open>dict\<close>.
  \<open>json_error v\<close> is the class name of that object, if there is one.
\<close>

fun json_error :: "pyval \<Rightarrow> string option"
  and json_error_list :: "pyval list \<Rightarrow> string option"
  and json_error_items :: "(string \<times> pyval) list \<Rightarrow> string option" where
  "json_error PyNone = None"
| "json_error (PyBool b) = None"
| "json_error (PyInt i) = None"
| "json_error (PyFloat x) = None"
| "json_error (PyStr s) = None"
| "json_error (PyList xs) = json_error_list xs"
| "json_error (PyTuple xs) = json_error_list xs"
| "json_error (PyDict d) = json_error_items d"
| "json_error (PyObject c) = Some c"
| "json_error_list [] = None"
| "json_error_list (x # xs) =
     (case json_error x of Some c \<Rightarrow> Some c | None \<Rightarrow> json_error_list xs)"
| "json_error_items [] = None"
| "json_error_items (kv # kvs) =
     (case json_error (snd kv) of Some c \<Rightarrow> Some c | None \<Rightarrow> json_error_items kvs)"

definition not_serializable :: "string \<Rightarrow> pyexc" where
  "not_serializable c = TypeError (''Object of type '' @ c @ '' is not JSON serializable'')"

subsection \<open>\<open>dict.update\<close> with an argument of any kind\<close>

text \<open>
  A dictionary whose keys need not be strings. Two keys are the same key when they are
  equal in Python, where \<open>True == 1 == 1.0\<close>; \<open>key_norm\<close> maps equal keys to one value.
  A store under a key that is present replaces the value and keeps the key object.
\<close>

type_synonym any_dict = "(pyval \<times> pyval) list"

fun key_norm :: "pyval \<Rightarrow> pyval" where
  "key_norm (PyBool b) = PyInt (if b then 1 else 0)"
| "key_norm (PyFloat x) = (if x = real_of_int \<lfloor>x\<rfloor> then PyInt \<lfloor>x\<rfloor> else PyFloat x)"
| "key_norm (PyTuple xs) = PyTuple (map key_norm xs)"
| "key_norm v = v"

fun any_update :: "pyval \<Rightarrow> pyval \<Rightarrow> any_dict \<Rightarrow> any_dict" where
  "any_update k v [] = [(k, v)]"
| "any_update k v (p # ps) =
     (if key_norm (fst p) = key_norm k then (fst p, v) # ps else p # any_update k v ps)"

text \<open>
  The class name of the first unhashable object in a key (a list or a dictionary, also
  inside a tuple), and the items that iterating a value yields (\<open>None\<close> for a value that
  is not iterable; an object of another class is taken to be hashable and not iterable).
\<close>

fun unhashable :: "pyval \<Rightarrow> string option"
  and unhashable_list :: "pyval list \<Rightarrow> string option" where
  "unhashable (PyList xs) = Some ''list''"
| "unhashable (PyDict d) = Some ''dict''"
| "unhashable (PyTuple xs) = unhashable_list xs"
| "unhashable PyNone = None"
| "unhashable (PyBool b) = None"
| "unhashable (PyInt i) = None"
| "unhashable (PyFloat x) = None"
| "unhashable (PyStr s) = None"
| "unhashable (PyObject c) = None"
| "unhashable_list [] = None"
| "unhashable_list (x # xs) =
     (case unhashable x of Some c \<Rightarrow> Some c | None \<Rightarrow> unhashable_list xs)"

fun iter_items :: "pyval \<Rightarrow> pyval list option" where
  "iter_items (PyList xs) = Some xs"
| "iter_items (PyTuple xs) = Some xs"
| "iter_items (PyStr s) = Some (map (\<lambda>c. PyStr [c]) s)"
| "iter_items (PyDict d) = Some (map (\<lambda>kv. PyStr (fst kv)) d)"
| "iter_items PyNone = None"
| "iter_items (PyBool b) = None"
| "iter_items (PyInt i) = None"
| "iter_items (PyFloat x) = None"
| "iter_items (PyObject c) = None"

text \<open>
  \<open>d.update(seq)\<close> for a sequence of key-value pairs: element number \<open>i\<close> must be
  iterable and have two items, and its first item must be hashable; the pair is
  stored before the next element is looked at.
\<close>

fun update_pairs :: "nat \<Rightarrow> pyval list \<Rightarrow> any_dict \<Rightarrow> pyexc + any_dict" where
  "update_pairs i [] d = Inr d"
| "update_pairs i (item # items) d =
     (case iter_items item of
        None \<Rightarrow>
          Inl (TypeError (''cannot convert dictionary update sequence element #'' @ str_nat i
                          @ '' to a sequence''))
      | Some kv \<Rightarrow>
          if length kv \<noteq> 2
          then Inl (ValueError (''dictionary update sequence element #'' @ str_nat i
                                @ '' has length '' @ str_nat (length kv)
                                @ ''; 2 is required''))
          else (case unhashable (kv ! 0) of
                  Some c \<Rightarrow> Inl (TypeError (''unhashable type: '' @ [CHR 0x27] @ c @ [CHR 0x27]))
                | None \<Rightarrow> update_pairs (i + 1) items (any_update (kv ! 0) (kv ! 1) d)))"

text \<open>\<open>d.update(other)\<close>: a dictionary is merged item by item; any other value must be
  an iterable of pairs.\<close>

definition dict_update :: "any_dict \<Rightarrow> pyval \<Rightarrow> pyexc + any_dict" where
  "dict_update d other =
     (case other of
        PyDict items \<Rightarrow> Inr (fold (\<lambda>kv. any_update (PyStr (fst kv)) (snd kv)) items d)
      | _ \<Rightarrow>
          (case iter_items other of
             None \<Rightarrow>
               Inl (TypeError ([CHR 0x27] @ class_name other @ [CHR 0x27]
                               @ '' object is not iterable''))
           | Some items \<Rightarrow> update_pairs 0 items d))"

section \<open>bridge.py\<close>

record AgentCtx =
  chat_key :: string
  user_id :: string
  platform_type :: string
  bot_id :: string

definition create_aipyapp_context :: "AgentCtx \<Rightarrow> dict" where
  "create_aipyapp_context ctx =
     [(''chat_key'', PyStr (chat_key ctx)),
      (''user_id'', PyStr (user_id ctx)),
      (''platform_type'', PyStr (platform_type ctx)),
      (''bot_id'', PyStr (bot_id ctx)),
      (''workdir'', PyStr (''/tmp/aipyapp_'' @ chat_key ctx)),
      (''session_id'', PyStr (''nekro_'' @ chat_key ctx @ ''_'' @ user_id ctx)),
      (''created_by'', PyStr ''nekro-agent''),
      (''orchestrator'', PyStr ''nekro-agent'')]"

text \<open>
  The raw result dictionary of an execution: a key may be missing, which is \<open>None\<close> here.
  \<open>format_result_for_nekro\<close> reads every key with \<open>get\<close> and a default.
\<close>

record raw_result =
  raw_success :: "bool option"
  raw_output :: "string option"
  raw_error :: "string option"
  raw_artifacts :: "string list option"
  raw_execution_time :: "real option"
  raw_variables :: "dict option"

record TaskResult =
  success :: bool
  result_output :: string
  error :: "string option"
  artifacts :: "string list"
  execution_time :: real
  variables :: dict

definition get_default :: "'a option \<Rightarrow> 'a \<Rightarrow> 'a" where
  "get_default v d = (case v of None \<Rightarrow> d | Some x \<Rightarrow> x)"

definition format_result_for_nekro :: "raw_result \<Rightarrow> TaskResult" where
  "format_result_for_nekro r =
     \<lparr>success = get_default (raw_success r) False,
      result_output = get_default (raw_output r) [],
      error = raw_error r,
      artifacts = get_default (raw_artifacts r) [],
      execution_time = get_default (raw_execution_time r) 0,
      variables = get_default (raw_variables r) []\<rparr>"

definition suggestions :: "(string \<times> string) list" where
  "suggestions =
     [(''SyntaxError'', ''Check Python syntax in the generated code''),
      (''TimeoutError'', ''Task exceeded time limit, consider breaking into smaller tasks''),
      (''MemoryError'', ''Task used too much memory, optimize data processing''),
      (''ModuleNotFoundError'', ''Required Python module not available in sandbox''),
      (''ValueError'', ''Invalid input data, check task parameters'')]"

definition get_recovery_suggestion :: "string \<Rightarrow> string" where
  "get_recovery_suggestion error_type =
     get_default (map_of suggestions error_type) ''Review task requirements and try again''"

record ErrorInfo =
  error_type :: string
  error_message :: string
  recovery_suggestion :: string

definition map_error :: "pyexc \<Rightarrow> ErrorInfo" where
  "map_error aipyapp_error =
     (let error_type = type_name aipyapp_error;
          error_message = str_of aipyapp_error
      in \<lparr>error_type = error_type,
          error_message = error_message,
          recovery_suggestion = get_recovery_suggestion error_type\<rparr>)"

section \<open>task_manager.py\<close>

text \<open>
  A \<open>pathlib.Path\<close> is kept symbolic: a path given by the caller, or \<open>base / name\<close>.
  \<open>TaskManager\<close> is the runtime handle of the external aipyapp package, known by the
  two arguments it is constructed from.
\<close>

datatype path = Path string | PathDiv path string

datatype TaskManager = TaskManager (cwd: path) (settings: dict)

text \<open>The metadata dictionary of one session, with its six keys.\<close>

record session =
  workdir :: path
  config :: dict
  task_manager :: "TaskManager option"
  created_at :: real
  last_accessed :: real
  task_count :: int

text \<open>
  The pool object: \<open>self.workdir\<close>, \<open>self.max_sessions\<close>, \<open>self.session_timeout\<close>
  and \<open>self._sessions\<close>, the dictionary from session id to metadata.
\<close>

record AipyappTaskManager =
  pool_workdir :: path
  max_sessions :: int
  session_timeout :: int
  sessions :: "(string \<times> session) list"

text \<open>\<open>cleanup_session\<close>: pop the record; report whether there was one.\<close>

definition cleanup_session :: "string \<Rightarrow> AipyappTaskManager \<Rightarrow> bool \<times> AipyappTaskManager" where
  "cleanup_session session_id m =
     (case map_of (sessions m) session_id of
        None \<Rightarrow> (False, m)
      | Some s \<Rightarrow> (True, m\<lparr>sessions := AList.delete session_id (sessions m)\<rparr>))"

text \<open>
  Python's \<open>min(xs, key=f)\<close> on a non-empty sequence: the first element, in iteration
  order, whose key is smallest. \<open>min_by f x xs\<close> is the scan with \<open>x\<close> the best so far.
\<close>

fun min_by :: "('a \<Rightarrow> 'b::linorder) \<Rightarrow> 'a \<Rightarrow> 'a list \<Rightarrow> 'a" where
  "min_by f x [] = x"
| "min_by f x (y # ys) = (if f y < f x then min_by f y ys else min_by f x ys)"

text \<open>\<open>self._sessions[sid]["last_accessed"]\<close>, for a session id of the pool.\<close>

definition last_accessed_of :: "AipyappTaskManager \<Rightarrow> string \<Rightarrow> real" where
  "last_accessed_of m sid = last_accessed (the (map_of (sessions m) sid))"

definition cleanup_oldest_session :: "AipyappTaskManager \<Rightarrow> AipyappTaskManager" where
  "cleanup_oldest_session m =
     (case map fst (sessions m) of
        [] \<Rightarrow> m
      | k # ks \<Rightarrow>
          (let oldest_id = min_by (last_accessed_of m) k ks
           in snd (cleanup_session oldest_id m)))"

text \<open>
  \<open>create_session\<close>. The surroundings of one call are its arguments: whether
  \<open>session_workdir.mkdir(parents=True, exist_ok=True)\<close> raises, and the two readings of
  the clock, for \<open>created_at\<close> and for \<open>last_accessed\<close>. An exception of \<open>mkdir\<close> leaves
  the function after the eviction and before the record is stored.
\<close>

definition create_session ::
  "string \<Rightarrow> dict option \<Rightarrow> pyexc option \<Rightarrow> real \<Rightarrow> real \<Rightarrow> AipyappTaskManager
     \<Rightarrow> (pyexc + unit) \<times> AipyappTaskManager" where
  "create_session session_id config_arg mkdir_raises now1 now2 m =
     (if session_id \<in> set (map fst (sessions m)) then (Inr (), m)
      else
        (let m1 = (if int (length (sessions m)) \<ge> max_sessions m
                   then cleanup_oldest_session m else m);
             session_workdir = PathDiv (pool_workdir m1) session_id
         in case mkdir_raises of
              Some e \<Rightarrow> (Inl e, m1)
            | None \<Rightarrow>
                (Inr (),
                 m1\<lparr>sessions :=
                      AList.update session_id
                        \<lparr>workdir = session_workdir,
                         config = get_default config_arg [],
                         task_manager = None,
                         created_at = now1,
                         last_accessed = now2,
                         task_count = 0\<rparr>
                        (sessions m1)\<rparr>)))"

text \<open>\<open>get_session\<close>, with the reading of the clock it takes when the session is found.\<close>

definition get_session ::
  "string \<Rightarrow> real \<Rightarrow> AipyappTaskManager \<Rightarrow> session option \<times> AipyappTaskManager" where
  "get_session session_id now m =
     (case map_of (sessions m) session_id of
        None \<Rightarrow> (None, m)
      | Some s \<Rightarrow>
          (let s' = s\<lparr>last_accessed := now\<rparr>
           in (Some s', m\<lparr>sessions := AList.update session_id s' (sessions m)\<rparr>)))"

text \<open>\<open>cleanup_idle_sessions\<close>, with its one reading of the clock.\<close>

definition idle_sessions :: "real \<Rightarrow> AipyappTaskManager \<Rightarrow> string list" where
  "idle_sessions current_time m =
     map fst (filter (\<lambda>(session_id, s).
        current_time - last_accessed s > real_of_int (session_timeout m)) (sessions m))"

definition cleanup_idle_sessions :: "real \<Rightarrow> AipyappTaskManager \<Rightarrow> nat \<times> AipyappTaskManager" where
  "cleanup_idle_sessions current_time m =
     (let idle = idle_sessions current_time m
      in (length idle, fold (\<lambda>session_id m'. snd (cleanup_session session_id m')) idle m))"

record stats =
  active_sessions :: nat
  stats_max_sessions :: int
  total_tasks :: int

definition get_stats :: "AipyappTaskManager \<Rightarrow> stats" where
  "get_stats m =
     \<lparr>active_sessions = length (sessions m),
      stats_max_sessions = max_sessions m,
      total_tasks = sum_list (map (\<lambda>(sid, s). task_count s) (sessions m))\<rparr>"

text \<open>A sequence of \<open>create_session\<close> calls on one pool, each with its own surroundings;
  a call that raises does not stop the caller from making the next one.\<close>

record create_call =
  call_session_id :: string
  call_config :: "dict option"
  call_mkdir_raises :: "pyexc option"
  call_now1 :: real
  call_now2 :: real

definition create_call_step :: "create_call \<Rightarrow> AipyappTaskManager \<Rightarrow> AipyappTaskManager" where
  "create_call_step c m =
     snd (create_session (call_session_id c) (call_config c) (call_mkdir_raises c)
            (call_now1 c) (call_now2 c) m)"

definition create_sessions :: "create_call list \<Rightarrow> AipyappTaskManager \<Rightarrow> AipyappTaskManager" where
  "create_sessions calls m = fold create_call_step calls m"

section \<open>sandbox_executor.py\<close>

datatype AipyappExecutionError = AipyappExecutionError string

text \<open>
  What the code reads from an aipyapp \<open>Task\<close> once \<open>task.run\<close> has returned:
  \<open>task.steps\<close> with the rounds of each step (\<open>step.data.rounds\<close>), whether \<open>task.cwd\<close>
  exists and what \<open>task.cwd.rglob("*")\<close> lists there (each entry with its path relative
  to \<open>task.cwd\<close>, \<open>is_file()\<close> and \<open>suffix\<close>), and \<open>task.runtime.globals\<close>, which is
  \<open>None\<close> here when one of the two \<open>hasattr\<close> tests fails. The content of a message is
  any value; joining the lines fails on one that is no string. \<open>reading_raises\<close> is the
  exception, if there is one, that reading the steps, listing the directory or reading
  the globals raises (an error of the file system, say).
\<close>

datatype Message = Message (content: pyval)

datatype LLMResponse = LLMResponse (message: "Message option")

datatype Round = Round (llm_response: "LLMResponse option")

datatype Step = Step (rounds: "Round list")

record file_entry =
  relative_path :: string
  is_file :: bool
  suffix :: string

record Task =
  steps :: "Step list"
  cwd_exists :: bool
  cwd_rglob :: "file_entry list"
  runtime_globals :: "dict option"
  reading_raises :: "pyexc option"

text \<open>
  What the external runtime decides about one call of \<open>_execute_in_aipyapp\<close>. The body
  either raises in \<open>Task(task_manager)\<close> or \<open>task.run(instruction)\<close>, or the run returns
  and leaves a task to read. \<open>Done_after d b t\<close>: the coroutine is done \<open>d\<close> seconds after
  it was awaited, its body went as \<open>b\<close> says, and \<open>t\<close> is the reading
  \<open>time.time() - start_time\<close> that ends up in the result. \<open>Never_done\<close>: the run does not
  come back.
\<close>

datatype body = Raises pyexc | Returns Task

datatype run = Done_after real body real | Never_done

definition execution_session_id :: "AgentCtx \<Rightarrow> string" where
  "execution_session_id ctx = chat_key ctx @ ''_'' @ user_id ctx"

text \<open>
  The executor object: \<open>self.workdir\<close>, \<open>self.timeout\<close>, \<open>self.max_memory_mb\<close> and
  \<open>self._task_managers\<close>.
\<close>

record AipyappSandboxExecutor =
  executor_workdir :: path
  timeout :: int
  max_memory_mb :: int
  task_managers :: "(string \<times> TaskManager) list"

text \<open>
  \<open>_get_task_manager\<close>. Creating the directory, the \<open>ConfigManager\<close> and the
  \<open>TaskManager\<close> is the business of the surroundings: \<open>construction\<close> is the exception
  one of them raises, or the settings \<open>config_manager.get_config()\<close> returns.
\<close>

definition get_task_manager ::
  "AgentCtx \<Rightarrow> pyexc + dict \<Rightarrow> AipyappSandboxExecutor
     \<Rightarrow> (pyexc + TaskManager) \<times> AipyappSandboxExecutor" where
  "get_task_manager ctx construction ex =
     (let session_id = execution_session_id ctx
      in case map_of (task_managers ex) session_id of
           Some tm \<Rightarrow> (Inr tm, ex)
         | None \<Rightarrow>
             (let session_workdir = PathDiv (executor_workdir ex) session_id
              in case construction of
                   Inl e \<Rightarrow> (Inl e, ex)
                 | Inr get_config \<Rightarrow>
                     (let tm = TaskManager session_workdir get_config
                      in (Inr tm,
                          ex\<lparr>task_managers :=
                               AList.update session_id tm (task_managers ex)\<rparr>))))"

definition output_lines :: "Task \<Rightarrow> pyval list" where
  "output_lines task =
     concat (map (\<lambda>step.
       concat (map (\<lambda>round_data.
         (case llm_response round_data of
            None \<Rightarrow> []
          | Some resp \<Rightarrow>
              (case message resp of None \<Rightarrow> [] | Some msg \<Rightarrow> [content msg])))
         (rounds step)))
       (steps task))"

text \<open>\<open>"\n".join(lines)\<close>: the strings with a newline between them, or \<open>TypeError\<close> for
  the first item that is no string.\<close>

fun join_lines :: "string list \<Rightarrow> string" where
  "join_lines [] = []"
| "join_lines [l] = l"
| "join_lines (l # ls) = l @ [CHR 0x0A] @ join_lines ls"

fun str_items :: "nat \<Rightarrow> pyval list \<Rightarrow> pyexc + string list" where
  "str_items i [] = Inr []"
| "str_items i (PyStr s # vs) =
     (case str_items (i + 1) vs of Inl e \<Rightarrow> Inl e | Inr ss \<Rightarrow> Inr (s # ss))"
| "str_items i (v # vs) =
     Inl (TypeError (''sequence item '' @ str_nat i @ '': expected str instance, ''
                     @ class_name v @ '' found''))"

definition join :: "pyval list \<Rightarrow> pyexc + string" where
  "join lines = (case str_items 0 lines of Inl e \<Rightarrow> Inl e | Inr ss \<Rightarrow> Inr (join_lines ss))"

definition artifact_suffixes :: "string list" where
  "artifact_suffixes = [''.png'', ''.jpg'', ''.csv'', ''.json'', ''.txt'']"

definition collect_artifacts :: "Task \<Rightarrow> string list" where
  "collect_artifacts task =
     (if cwd_exists task
      then map relative_path
             (filter (\<lambda>file_path. is_file file_path \<and> suffix file_path \<in> set artifact_suffixes)
                (cwd_rglob task))
      else [])"

text \<open>\<open>key.startswith('_')\<close> and
  \<open>isinstance(value, (int, float, str, bool, list, dict))\<close>.\<close>

definition startswith_underscore :: "string \<Rightarrow> bool" where
  "startswith_underscore key = (case key of [] \<Rightarrow> False | c # cs \<Rightarrow> c = CHR ''_'')"

fun isinstance_serializable :: "pyval \<Rightarrow> bool" where
  "isinstance_serializable (PyInt i) = True"
| "isinstance_serializable (PyFloat x) = True"
| "isinstance_serializable (PyStr s) = True"
| "isinstance_serializable (PyBool b) = True"
| "isinstance_serializable (PyList xs) = True"
| "isinstance_serializable (PyDict d) = True"
| "isinstance_serializable (PyTuple xs) = False"
| "isinstance_serializable PyNone = False"
| "isinstance_serializable (PyObject c) = False"

definition collect_variables :: "Task \<Rightarrow> dict" where
  "collect_variables task =
     (case runtime_globals task of
        None \<Rightarrow> []
      | Some globals \<Rightarrow>
          fold (\<lambda>(key, v) variables.
                  if \<not> startswith_underscore key \<and> isinstance_serializable v
                  then AList.update key v variables else variables)
            globals [])"

text \<open>
  The part of the \<open>try\<close> block after the run: the lines, the artifacts and the variables
  are collected, and the lines are joined when the result dictionary is built.
\<close>

definition read_results :: "Task \<Rightarrow> pyexc + (string \<times> string list \<times> dict)" where
  "read_results task =
     (case reading_raises task of
        Some e \<Rightarrow> Inl e
      | None \<Rightarrow>
          (let lines = output_lines task;
               artifacts = collect_artifacts task;
               variables = collect_variables task
           in case (if lines \<noteq> [] then join lines else Inr ''Task completed successfully'') of
                Inl e \<Rightarrow> Inl e
              | Inr joined \<Rightarrow> Inr (joined, artifacts, variables)))"

text \<open>The dictionary of the \<open>except\<close> clause of \<open>_execute_in_aipyapp\<close>.\<close>

definition failed_result :: "pyexc \<Rightarrow> real \<Rightarrow> raw_result" where
  "failed_result e elapsed =
     \<lparr>raw_success = Some False,
      raw_output = Some [],
      raw_error = Some (str_of e),
      raw_artifacts = Some [],
      raw_execution_time = Some elapsed,
      raw_variables = Some []\<rparr>"

text \<open>
  \<open>_execute_in_aipyapp\<close>. \<open>runtime\<close> is the external aipyapp runtime: what creating a
  \<open>Task\<close> on the task manager and running the instruction leads to. The result is the
  time after which the coroutine is done together with the dictionary it returns, or
  \<open>None\<close> when it is never done. The \<open>context\<close> argument is not read.
\<close>

definition execute_in_aipyapp ::
  "(TaskManager \<Rightarrow> string \<Rightarrow> run) \<Rightarrow> TaskManager \<Rightarrow> string \<Rightarrow> any_dict
     \<Rightarrow> (real \<times> raw_result) option" where
  "execute_in_aipyapp runtime tm instruction context =
     (case runtime tm instruction of
        Never_done \<Rightarrow> None
      | Done_after d b elapsed \<Rightarrow>
          Some (d,
            case b of
              Raises e \<Rightarrow> failed_result e elapsed
            | Returns task \<Rightarrow>
                (case read_results task of
                   Inl e \<Rightarrow> failed_result e elapsed
                 | Inr (joined, files, vars) \<Rightarrow>
                     \<lparr>raw_success = Some True,
                      raw_output = Some joined,
                      raw_error = None,
                      raw_artifacts = Some files,
                      raw_execution_time = Some elapsed,
                      raw_variables = Some vars\<rparr>)))"

text \<open>
  \<open>asyncio.wait_for(awaited, timeout)\<close>: the result of the coroutine when it is done
  before \<open>timeout\<close> seconds have passed; otherwise the coroutine is cancelled and
  \<open>asyncio.TimeoutError\<close> is raised. The slack of the event loop is not part of the model.
\<close>

definition asyncio_TimeoutError :: pyexc where
  "asyncio_TimeoutError =
     \<lparr>type_name = ''TimeoutError'', str_of = [], is_asyncio_TimeoutError = True\<rparr>"

definition wait_for :: "(real \<times> 'a) option \<Rightarrow> int \<Rightarrow> pyexc + 'a" where
  "wait_for awaited seconds =
     (case awaited of
        None \<Rightarrow> Inl asyncio_TimeoutError
      | Some (d, r) \<Rightarrow> if d < real_of_int seconds then Inr r else Inl asyncio_TimeoutError)"

text \<open>The two \<open>except\<close> clauses of \<open>execute_task\<close>, in their order.\<close>

definition execute_task_except :: "AipyappSandboxExecutor \<Rightarrow> pyexc \<Rightarrow> AipyappExecutionError" where
  "execute_task_except ex e =
     (if is_asyncio_TimeoutError e
      then AipyappExecutionError
             (''Task execution exceeded '' @ str_int (timeout ex) @ ''s timeout'')
      else AipyappExecutionError (error_message (map_error e)))"

text \<open>
  The context dictionary of \<open>execute_task\<close>: the bridge's dictionary, updated with
  \<open>context\<close> when that is true. \<open>context\<close> is any value: \<open>execute_python_task\<close> passes
  what \<open>json.loads\<close> made of its argument.
\<close>

definition merge_context :: "dict \<Rightarrow> pyval option \<Rightarrow> pyexc + any_dict" where
  "merge_context aipyapp_ctx context =
     (let d = map (\<lambda>kv. (PyStr (fst kv), snd kv)) aipyapp_ctx
      in case context of
           None \<Rightarrow> Inr d
         | Some c \<Rightarrow> if truthy c then dict_update d c else Inr d)"

definition execute_task ::
  "(TaskManager \<Rightarrow> string \<Rightarrow> run) \<Rightarrow> pyexc + dict \<Rightarrow> AgentCtx \<Rightarrow> string \<Rightarrow> pyval option
     \<Rightarrow> AipyappSandboxExecutor
     \<Rightarrow> (AipyappExecutionError + TaskResult) \<times> AipyappSandboxExecutor" where
  "execute_task runtime construction ctx instruction context ex =
     (case get_task_manager ctx construction ex of
        (Inl e, ex') \<Rightarrow> (Inl (execute_task_except ex' e), ex')
      | (Inr tm, ex') \<Rightarrow>
          (case merge_context (create_aipyapp_context ctx) context of
             Inl e \<Rightarrow> (Inl (execute_task_except ex' e), ex')
           | Inr aipyapp_ctx \<Rightarrow>
               (case wait_for (execute_in_aipyapp runtime tm instruction aipyapp_ctx)
                       (timeout ex') of
                  Inl e \<Rightarrow> (Inl (execute_task_except ex' e), ex')
                | Inr result \<Rightarrow> (Inr (format_result_for_nekro result), ex'))))"

section \<open>aipyapp_orchestrator.py\<close>

text \<open>
  \<open>execute_python_workflow\<close>. Its result is the dictionary that \<open>json.dumps\<close> has encoded
  at a \<open>return\<close> (a key the dictionary does not have is \<open>None\<close>), or the exception that
  leaves the function. The argument is what \<open>json.loads(instructions)\<close> made of the text:
  a decoding error with its message, a value that is no list, or the list of
  instructions.
\<close>

record StepResult =
  step :: int
  instruction :: string
  step_result :: TaskResult

record WorkflowResult =
  wf_success :: bool
  wf_steps :: "StepResult list"
  wf_error :: "string option"
  wf_final_output :: "string option"
  wf_artifacts :: "string list option"
  wf_total_time :: "real option"

datatype parsed_instructions =
    JSONDecodeError string
  | Not_a_list
  | Instruction_list "string list"

text \<open>\<open>str(x)\<close> of an optional string inside an f-string.\<close>

definition str_optional :: "string option \<Rightarrow> string" where
  "str_optional v = (case v of None \<Rightarrow> ''None'' | Some x \<Rightarrow> x)"

text \<open>
  \<open>json.dumps\<close> of a result dictionary. All its values are strings, numbers, truth
  values, \<open>None\<close> and lists of them, but for the variables of the recorded steps; the
  encoder reaches them step by step, in order.
\<close>

definition json_dumps :: "WorkflowResult \<Rightarrow> pyexc + WorkflowResult" where
  "json_dumps d =
     (case json_error_list (map (\<lambda>st. PyDict (variables (step_result st))) (wf_steps d)) of
        None \<Rightarrow> Inr d
      | Some c \<Rightarrow> Inl (not_serializable c))"

text \<open>
  How the \<open>for\<close> loop ends: by the \<open>return\<close> for a failed step (with the dictionary
  handed to \<open>json.dumps\<close>), by an exception of \<open>execute_task\<close> (with the steps recorded so
  far), or by running out of instructions (with the steps, the context dictionary and
  the time added up).
\<close>

datatype loop_end =
    Step_failed WorkflowResult
  | Call_raised AipyappExecutionError "StepResult list"
  | Loop_done "StepResult list" dict real

text \<open>
  The loop over \<open>enumerate(instruction_list)\<close>. \<open>exec\<close> is \<open>self.executor.execute_task\<close>
  with \<open>ctx\<close> fixed, acting on the state \<open>'s\<close> of the executor and its runtime.
\<close>

fun run_steps ::
  "('s \<Rightarrow> string \<Rightarrow> dict \<Rightarrow> (AipyappExecutionError + TaskResult) \<times> 's)
     \<Rightarrow> nat \<Rightarrow> string list \<Rightarrow> StepResult list \<Rightarrow> dict \<Rightarrow> real \<Rightarrow> 's \<Rightarrow> loop_end \<times> 's" where
  "run_steps exec i [] steps_results context_dict total_time s =
     (Loop_done steps_results context_dict total_time, s)"
| "run_steps exec i (ins # rest) steps_results context_dict total_time s =
     (case exec s ins context_dict of
        (Inl e, s') \<Rightarrow> (Call_raised e steps_results, s')
      | (Inr r, s') \<Rightarrow>
          (let steps_results' =
                 steps_results @ [\<lparr>step = int i + 1, instruction = ins, step_result = r\<rparr>]
           in if \<not> success r
              then (Step_failed
                      \<lparr>wf_success = False,
                       wf_steps = steps_results',
                       wf_error = Some (''Step '' @ str_int (int i + 1) @ '' failed: ''
                                        @ str_optional (error r)),
                       wf_final_output = None,
                       wf_artifacts = None,
                       wf_total_time = Some total_time\<rparr>, s')
              else run_steps exec (i + 1) rest steps_results'
                     (AList.update ''variables'' (PyDict (variables r)) context_dict)
                     (total_time + execution_time r) s'))"

definition failure :: "string \<Rightarrow> StepResult list \<Rightarrow> WorkflowResult" where
  "failure msg steps_results =
     \<lparr>wf_success = False,
      wf_steps = steps_results,
      wf_error = Some msg,
      wf_final_output = None,
      wf_artifacts = None,
      wf_total_time = None\<rparr>"

definition message_of :: "AipyappExecutionError \<Rightarrow> string" where
  "message_of e = (case e of AipyappExecutionError msg \<Rightarrow> msg)"

text \<open>
  The outer \<open>except Exception\<close> clause: the dictionary with \<open>str(e)\<close> and the steps
  recorded so far goes through \<open>json.dumps\<close>; an exception of that call leaves the
  function.
\<close>

definition workflow_except :: "string \<Rightarrow> StepResult list \<Rightarrow> pyexc + WorkflowResult" where
  "workflow_except msg steps_results = json_dumps (failure msg steps_results)"

text \<open>A \<open>return json.dumps(d)\<close> inside the \<open>try\<close> block: an exception of \<open>json.dumps\<close>
  is caught by the outer clause.\<close>

definition return_dumps :: "WorkflowResult \<Rightarrow> pyexc + WorkflowResult" where
  "return_dumps d =
     (case json_dumps d of
        Inr encoded \<Rightarrow> Inr encoded
      | Inl e \<Rightarrow> workflow_except (str_of e) (wf_steps d))"

definition execute_python_workflow ::
  "bool \<Rightarrow> ('s \<Rightarrow> string \<Rightarrow> dict \<Rightarrow> (AipyappExecutionError + TaskResult) \<times> 's)
     \<Rightarrow> parsed_instructions \<Rightarrow> 's \<Rightarrow> (pyexc + WorkflowResult) \<times> 's" where
  "execute_python_workflow initialized exec instructions s =
     (if \<not> initialized then (json_dumps (failure ''aipyapp executor not initialized'' []), s)
      else
        (case instructions of
           JSONDecodeError msg \<Rightarrow>
             (return_dumps (failure (''Invalid instructions format: '' @ msg) []), s)
         | Not_a_list \<Rightarrow>
             (return_dumps
                (failure (''Invalid instructions format: '' @ ''Instructions must be a JSON array'')
                   []), s)
         | Instruction_list instruction_list \<Rightarrow>
             (case run_steps exec 0 instruction_list [] [] 0 s of
                (Step_failed d, s') \<Rightarrow> (return_dumps d, s')
              | (Call_raised e steps_results, s') \<Rightarrow>
                  (workflow_except (message_of e) steps_results, s')
              | (Loop_done steps_results context_dict total_time, s') \<Rightarrow>
                  (if steps_results = []
                   then (workflow_except ''list index out of range'' steps_results, s')
                   else
                     (return_dumps
                        \<lparr>wf_success = True,
                         wf_steps = steps_results,
                         wf_error = None,
                         wf_final_output =
                           Some (result_output (step_result (last steps_results))),
                         wf_artifacts =
                           Some (concat (map (\<lambda>st. artifacts (step_result st)) steps_results)),
                         wf_total_time = Some total_time\<rparr>, s')))))"

text \<open>The executor of \<open>sandbox_executor.py\<close> as the workflow calls it:
  \<open>execute_task(ctx=_ctx, instruction=instruction, context=context_dict)\<close>.\<close>

definition executor_call ::
  "(TaskManager \<Rightarrow> string \<Rightarrow> run) \<Rightarrow> pyexc + dict \<Rightarrow> AgentCtx
     \<Rightarrow> AipyappSandboxExecutor \<Rightarrow> string \<Rightarrow> dict
     \<Rightarrow> (AipyappExecutionError + TaskResult) \<times> AipyappSandboxExecutor" where
  "executor_call runtime construction ctx ex ins context_dict =
     execute_task runtime construction ctx ins (Some (PyDict context_dict)) ex"

section \<open>Example inputs\<close>

text \<open>The context and the executor of the repository's integration tests.\<close>

definition mock_ctx :: AgentCtx where
  "mock_ctx =
     \<lparr>chat_key = ''test_chat'', user_id = ''test_user'',
      platform_type = ''test'', bot_id = ''test_bot''\<rparr>"

definition mock_executor :: AipyappSandboxExecutor where
  "mock_executor =
     \<lparr>executor_workdir = Path ''aipyapp_test'', timeout = 30, max_memory_mb = 512,
      task_managers = []\<rparr>"

definition RuntimeError :: pyexc where
  "RuntimeError =
     \<lparr>type_name = ''RuntimeError'', str_of = ''Unknown error occurred'',
      is_asyncio_TimeoutError = False\<rparr>"

definition SyntaxError :: pyexc where
  "SyntaxError =
     \<lparr>type_name = ''SyntaxError'', str_of = ''invalid syntax on line 5'',
      is_asyncio_TimeoutError = False\<rparr>"

definition PermissionError :: pyexc where
  "PermissionError =
     \<lparr>type_name = ''PermissionError'', str_of = ''Permission denied'',
      is_asyncio_TimeoutError = False\<rparr>"

text \<open>Four runtimes: one whose run raises after half a second, one whose run does not
  come back, one that returns a task with four global variables after two and a half
  seconds, and one that returns the same task after 45 seconds; and an exception whose
  message is the text of the executor's timeout message.\<close>

definition raising_runtime :: "TaskManager \<Rightarrow> string \<Rightarrow> run" where
  "raising_runtime tm ins = Done_after (1 / 2) (Raises SyntaxError) (1 / 2)"


definition finished_task :: Task where
  "finished_task =
     \<lparr>steps = [Step [Round (Some (LLMResponse (Some (Message (PyStr ''2 + 2 = 4''))))),
                     Round None]],
      cwd_exists = True,
      cwd_rglob = [\<lparr>relative_path = ''plot.png'', is_file = True, suffix = ''.png''\<rparr>,
                   \<lparr>relative_path = ''run.py'', is_file = True, suffix = ''.py''\<rparr>],
      runtime_globals =
        Some [(''result'', PyInt 4), (''_cache'', PyInt 1),
              (''helper'', PyObject ''function''), (''name'', PyStr ''a'')],
      reading_raises = None\<rparr>"

definition returning_runtime :: "TaskManager \<Rightarrow> string \<Rightarrow> run" where
  "returning_runtime tm ins = Done_after (5 / 2) (Returns finished_task) (5 / 2)"



text \<open>The pool of the repository's tests (five sessions at most, ten seconds of idle
  time), the same pool with no capacity, and a call of \<open>create_session\<close> without a
  configuration, whose directory can be made and whose two clock readings agree.\<close>

definition test_pool :: AipyappTaskManager where
  "test_pool =
     \<lparr>pool_workdir = Path ''aipyapp_test'', max_sessions = 5, session_timeout = 10,
      sessions = []\<rparr>"

definition zero_pool :: AipyappTaskManager where
  "zero_pool = test_pool\<lparr>max_sessions := 0\<rparr>"

definition create :: "string \<Rightarrow> real \<Rightarrow> create_call" where
  "create sid t =
     \<lparr>call_session_id = sid, call_config = None, call_mkdir_raises = None,
      call_now1 = t, call_now2 = t\<rparr>"

definition new_session :: "string \<Rightarrow> real \<Rightarrow> session" where
  "new_session sid t =
     \<lparr>workdir = PathDiv (Path ''aipyapp_test'') sid, config = [], task_manager = None,
      created_at = t, last_accessed = t, task_count = 0\<rparr>"

definition full_pool :: AipyappTaskManager where
  "full_pool =
     test_pool\<lparr>sessions :=
       [(''s0'', new_session ''s0'' 0), (''s1'', new_session ''s1'' 1),
        (''s2'', new_session ''s2'' 2), (''s3'', new_session ''s3'' 3),
        (''s4'', new_session ''s4'' 4)]\<rparr>"

text \<open>A pool at capacity in which \<open>s1\<close> and \<open>s3\<close> share the smallest \<open>last_accessed\<close>.\<close>

definition tied_pool :: AipyappTaskManager where
  "tied_pool =
     test_pool\<lparr>sessions :=
       [(''s0'', new_session ''s0'' 5), (''s1'', new_session ''s1'' 1),
        (''s2'', new_session ''s2'' 2), (''s3'', new_session ''s3'' 1),
        (''s4'', new_session ''s4'' 4)]\<rparr>"

definition two_pool :: AipyappTaskManager where
  "two_pool =
     test_pool\<lparr>sessions :=
       [(''session_1'', new_session ''session_1'' 80),
        (''session_2'', new_session ''session_2'' 100)]\<rparr>"






section \<open>The bridge\<close>

text \<open>
  Claim C6, as the code has it. \<open>map_error\<close> returns, for every exception, an error
  dictionary with the name of the exception's type and its message. The recovery
  suggestion is the fixed text of the table for \<open>SyntaxError\<close>, \<open>TimeoutError\<close>,
  \<open>MemoryError\<close>, \<open>ModuleNotFoundError\<close> and \<open>ValueError\<close>, and for every other type
  name it is the default text, which reads "Review task requirements and try again".
\<close>

theorem map_error_suggestions:
  "error_type (map_error e) = type_name e \<and>
   error_message (map_error e) = str_of e \<and>
   recovery_suggestion (map_error e) =
     (if type_name e = ''SyntaxError'' then ''Check Python syntax in the generated code''
      else if type_name e = ''TimeoutError''
        then ''Task exceeded time limit, consider breaking into smaller tasks''
      else if type_name e = ''MemoryError''
        then ''Task used too much memory, optimize data processing''
      else if type_name e = ''ModuleNotFoundError''
        then ''Required Python module not available in sandbox''
      else if type_name e = ''ValueError'' then ''Invalid input data, check task parameters''
      else ''Review task requirements and try again'')"
  by (simp add: map_error_def get_recovery_suggestion_def suggestions_def get_default_def)

text \<open>
  The default text is not the one claim C6 quotes: for a \<open>RuntimeError\<close>, a type the
  table does not list, the suggestion differs from "review task requirements and retry".
\<close>

theorem map_error_default_counterexample:
  "type_name RuntimeError \<notin> set (map fst suggestions) \<and>
   recovery_suggestion (map_error RuntimeError) \<noteq> ''review task requirements and retry'' \<and>
   recovery_suggestion (map_error RuntimeError) = ''Review task requirements and try again''"
  by (simp add: map_error_def get_recovery_suggestion_def suggestions_def get_default_def
      RuntimeError_def)

text \<open>
  Claim C3, as the code has it. For every context, \<open>create_aipyapp_context\<close> gives the
  session id \<open>"nekro_" + chat_key + "_" + user_id\<close> and the working directory
  \<open>"/tmp/aipyapp_" + chat_key\<close>. The executor does not take its key from the bridge: it
  files the session's task manager under \<open>chat_key + "_" + user_id\<close>, which is the
  bridge's session id without the prefix \<open>"nekro_"\<close>, and so never equal to it.
\<close>

theorem session_keys:
  "map_of (create_aipyapp_context ctx) ''session_id'' =
     Some (PyStr (''nekro_'' @ chat_key ctx @ ''_'' @ user_id ctx)) \<and>
   map_of (create_aipyapp_context ctx) ''workdir'' =
     Some (PyStr (''/tmp/aipyapp_'' @ chat_key ctx)) \<and>
   execution_session_id ctx = chat_key ctx @ ''_'' @ user_id ctx \<and>
   map_of (task_managers (snd (get_task_manager ctx (Inr cfg) ex))) (execution_session_id ctx) =
     (case fst (get_task_manager ctx (Inr cfg) ex) of Inl e \<Rightarrow> None | Inr tm \<Rightarrow> Some tm) \<and>
   map_of (create_aipyapp_context ctx) ''session_id'' =
     Some (PyStr (''nekro_'' @ execution_session_id ctx)) \<and>
   map_of (create_aipyapp_context ctx) ''session_id'' \<noteq> Some (PyStr (execution_session_id ctx))"
  by (auto simp add: create_aipyapp_context_def execution_session_id_def get_task_manager_def
      Let_def update_Some_unfold split: option.splits)

text \<open>
  For the context of the tests the bridge's session id is \<open>nekro_test_chat_test_user\<close>;
  after the executor has resolved the session's task manager, its pool has no entry
  under that key, and has one under \<open>test_chat_test_user\<close>.
\<close>

theorem session_keys_counterexample:
  "map_of (create_aipyapp_context mock_ctx) ''session_id'' =
     Some (PyStr ''nekro_test_chat_test_user'') \<and>
   map_of (task_managers (snd (get_task_manager mock_ctx (Inr []) mock_executor)))
     ''nekro_test_chat_test_user'' = None \<and>
   map (fst) (task_managers (snd (get_task_manager mock_ctx (Inr []) mock_executor))) =
     [''test_chat_test_user'']"
  by (simp add: create_aipyapp_context_def execution_session_id_def get_task_manager_def
      mock_ctx_def mock_executor_def Let_def)

section \<open>The executor\<close>

lemma update_fresh: "k \<notin> fst ` set al \<Longrightarrow> AList.update k v al = al @ [(k, v)]"
  by (induction al) auto

lemma set_update_subset: "set (AList.update k v al) \<subseteq> insert (k, v) (set al)"
  by (induction al) auto

lemma get_task_manager_timeout:
  "timeout (snd (get_task_manager ctx construction ex)) = timeout ex"
  by (auto simp: get_task_manager_def Let_def split: option.splits sum.splits)

lemma get_task_manager_cases:
  obtains e ex' where "get_task_manager ctx construction ex = (Inl e, ex')"
  | tm ex' where "get_task_manager ctx construction ex = (Inr tm, ex')"
proof (cases "get_task_manager ctx construction ex")
  case (Pair res ex')
  then show ?thesis using that by (cases res) auto
qed

text \<open>\<open>execute_task\<close> once the task manager is resolved and the context is merged.\<close>

lemma execute_task_resolved:
  assumes "fst (get_task_manager ctx construction ex) = Inr tm"
    and "merge_context (create_aipyapp_context ctx) extra = Inr merged"
  shows "fst (execute_task runtime construction ctx ins extra ex) =
     (case wait_for (execute_in_aipyapp runtime tm ins merged) (timeout ex) of
        Inl e \<Rightarrow> Inl (execute_task_except ex e)
      | Inr result \<Rightarrow> Inr (format_result_for_nekro result))"
proof -
  obtain ex' where g: "get_task_manager ctx construction ex = (Inr tm, ex')"
    using assms(1) by (cases "get_task_manager ctx construction ex") auto
  have t: "timeout ex' = timeout ex"
    using get_task_manager_timeout[of ctx construction ex] g by simp
  have "execute_task_except ex' e = execute_task_except ex e" for e
    by (simp add: execute_task_except_def t)
  then show ?thesis
    using g assms(2) t by (simp add: execute_task_def split: sum.splits)
qed

lemma execute_task_construction_raises:
  assumes "fst (get_task_manager ctx construction ex) = Inl e"
  shows "fst (execute_task runtime construction ctx ins extra ex) =
     Inl (execute_task_except ex e)"
proof -
  obtain ex' where g: "get_task_manager ctx construction ex = (Inl e, ex')"
    using assms(1) by (cases "get_task_manager ctx construction ex") auto
  have "ex' = ex"
    using g by (auto simp: get_task_manager_def Let_def split: option.splits sum.splits)
  then show ?thesis using g by (simp add: execute_task_def)
qed

lemma execute_task_context_raises:
  assumes "fst (get_task_manager ctx construction ex) = Inr tm"
    and "merge_context (create_aipyapp_context ctx) extra = Inl e"
  shows "fst (execute_task runtime construction ctx ins extra ex) =
     Inl (execute_task_except ex e)"
proof -
  obtain ex' where g: "get_task_manager ctx construction ex = (Inr tm, ex')"
    using assms(1) by (cases "get_task_manager ctx construction ex") auto
  have t: "timeout ex' = timeout ex"
    using get_task_manager_timeout[of ctx construction ex] g by simp
  have "execute_task_except ex' e = execute_task_except ex e"
    by (simp add: execute_task_except_def t)
  then show ?thesis using g assms(2) by (simp add: execute_task_def)
qed

lemma execute_task_Raises:
  assumes "fst (get_task_manager ctx construction ex) = Inr tm"
    and "merge_context (create_aipyapp_context ctx) extra = Inr merged"
    and "runtime tm ins = Done_after d (Raises e) t"
    and "d < real_of_int (timeout ex)"
  shows "fst (execute_task runtime construction ctx ins extra ex) =
     Inr \<lparr>success = False, result_output = [], error = Some (str_of e), artifacts = [],
          execution_time = t, variables = []\<rparr>"
  using assms(3,4)
  by (simp add: execute_task_resolved[OF assms(1,2)] execute_in_aipyapp_def wait_for_def
      failed_result_def format_result_for_nekro_def get_default_def)

lemma execute_task_unreadable:
  assumes "fst (get_task_manager ctx construction ex) = Inr tm"
    and "merge_context (create_aipyapp_context ctx) extra = Inr merged"
    and "runtime tm ins = Done_after d (Returns task) t"
    and "d < real_of_int (timeout ex)"
    and "read_results task = Inl e"
  shows "fst (execute_task runtime construction ctx ins extra ex) =
     Inr \<lparr>success = False, result_output = [], error = Some (str_of e), artifacts = [],
          execution_time = t, variables = []\<rparr>"
  using assms(3,4,5)
  by (simp add: execute_task_resolved[OF assms(1,2)] execute_in_aipyapp_def wait_for_def
      failed_result_def format_result_for_nekro_def get_default_def)

lemma execute_task_Returns:
  assumes "fst (get_task_manager ctx construction ex) = Inr tm"
    and "merge_context (create_aipyapp_context ctx) extra = Inr merged"
    and "runtime tm ins = Done_after d (Returns task) t"
    and "d < real_of_int (timeout ex)"
    and "read_results task = Inr (joined, files, vars)"
  shows "fst (execute_task runtime construction ctx ins extra ex) =
     Inr \<lparr>success = True, result_output = joined, error = None, artifacts = files,
          execution_time = t, variables = vars\<rparr>"
  using assms(3,4,5)
  by (simp add: execute_task_resolved[OF assms(1,2)] execute_in_aipyapp_def wait_for_def
      format_result_for_nekro_def get_default_def)


lemma read_results_variables:
  "read_results task = Inr (joined, files, vars) \<Longrightarrow> vars = collect_variables task"
  by (auto simp: read_results_def Let_def split: option.splits sum.splits if_splits)

lemma mock_task_manager:
  "fst (get_task_manager mock_ctx (Inr []) mock_executor) =
     Inr (TaskManager (PathDiv (Path ''aipyapp_test'') ''test_chat_test_user'') [])"
  by (simp add: get_task_manager_def execution_session_id_def mock_ctx_def mock_executor_def
      Let_def)

lemma mock_context:
  "merge_context (create_aipyapp_context mock_ctx) None =
     Inr (map (\<lambda>kv. (PyStr (fst kv), snd kv)) (create_aipyapp_context mock_ctx))"
  by (simp add: merge_context_def)

text \<open>
  A context that is true and no dictionary, as \<open>execute_python_task\<close> can pass it: the
  update of the context dictionary raises, and \<open>execute_task\<close> raises its error with
  the message of that exception.
\<close>

lemma execute_task_context_example:
  "fst (execute_task returning_runtime (Inr []) mock_ctx ''Calculate 2 + 2''
          (Some (PyList [PyInt 1])) mock_executor) =
     Inl (AipyappExecutionError
            ''cannot convert dictionary update sequence element #0 to a sequence'')"
proof -
  have "merge_context (create_aipyapp_context mock_ctx) (Some (PyList [PyInt 1])) =
      Inl (TypeError ''cannot convert dictionary update sequence element #0 to a sequence'')"
    by (simp add: merge_context_def dict_update_def)
  from execute_task_context_raises[OF mock_task_manager this]
  show ?thesis by (simp add: execute_task_except_def map_error_def TypeError_def Let_def)
qed

text \<open>
  Claim C1, on the code. Whenever the task manager is resolved, the context is merged
  and \<open>Task(...)\<close> or \<open>task.run\<close> raises an exception before the deadline,
  \<open>_execute_in_aipyapp\<close> catches the exception and \<open>execute_task\<close> returns a task result
  with \<open>success = False\<close>, the exception's message as \<open>error\<close>, no output, no artifacts
  and no variables: it raises no error, and \<open>map_error\<close> is not applied to the exception.
\<close>

theorem runtime_exception_returned:
  assumes "fst (get_task_manager ctx construction ex) = Inr tm"
    and "merge_context (create_aipyapp_context ctx) extra = Inr merged"
    and "runtime tm ins = Done_after d (Raises e) t"
    and "d < real_of_int (timeout ex)"
  shows "fst (execute_task runtime construction ctx ins extra ex) =
     Inr \<lparr>success = False, result_output = [], error = Some (str_of e), artifacts = [],
          execution_time = t, variables = []\<rparr>"
  using assms by (rule execute_task_Raises)

text \<open>
  The theorem for the context and the executor of the tests: the runtime raises a
  \<open>SyntaxError\<close> after half a second, within the 30 seconds of the executor, and
  \<open>execute_task\<close> returns the failed result.
\<close>

theorem runtime_exception_returned_witness:
  "fst (get_task_manager mock_ctx (Inr []) mock_executor) =
     Inr (TaskManager (PathDiv (Path ''aipyapp_test'') ''test_chat_test_user'') []) \<and>
   merge_context (create_aipyapp_context mock_ctx) None =
     Inr (map (\<lambda>kv. (PyStr (fst kv), snd kv)) (create_aipyapp_context mock_ctx)) \<and>
   raising_runtime (TaskManager (PathDiv (Path ''aipyapp_test'') ''test_chat_test_user'') [])
     ''Invalid Python code'' = Done_after (1 / 2) (Raises SyntaxError) (1 / 2) \<and>
   (1 / 2 :: real) < real_of_int (timeout mock_executor) \<and>
   fst (execute_task raising_runtime (Inr []) mock_ctx ''Invalid Python code'' None mock_executor) =
     Inr \<lparr>success = False, result_output = [], error = Some ''invalid syntax on line 5'',
          artifacts = [], execution_time = 1 / 2, variables = []\<rparr> \<and>
   \<not> isl (fst (execute_task raising_runtime (Inr []) mock_ctx ''Invalid Python code'' None
                 mock_executor))"
proof -
  let ?tm = "TaskManager (PathDiv (Path ''aipyapp_test'') ''test_chat_test_user'') []"
  have r: "raising_runtime ?tm ''Invalid Python code'' =
      Done_after (1 / 2) (Raises SyntaxError) (1 / 2)"
    by (simp add: raising_runtime_def)
  have d: "(1 / 2 :: real) < real_of_int (timeout mock_executor)"
    by (simp add: mock_executor_def)
  note res = runtime_exception_returned[where runtime = raising_runtime
      and ins = "''Invalid Python code''", OF mock_task_manager mock_context r d]
  have e: "fst (execute_task raising_runtime (Inr []) mock_ctx ''Invalid Python code'' None
               mock_executor) =
     Inr \<lparr>success = False, result_output = [], error = Some ''invalid syntax on line 5'',
          artifacts = [], execution_time = 1 / 2, variables = []\<rparr>"
    using res by (simp add: SyntaxError_def)
  have n: "\<not> isl (fst (execute_task raising_runtime (Inr []) mock_ctx ''Invalid Python code''
      None mock_executor))"
    by (simp add: e)
  show ?thesis by (intro conjI mock_task_manager mock_context r d e n)
qed




lemma fold_collect_set:
  "kv \<in> set (fold (\<lambda>(key, v) variables.
                  if \<not> startswith_underscore key \<and> isinstance_serializable v
                  then AList.update key v variables else variables) globals acc)
   \<Longrightarrow> kv \<in> set acc \<or> (\<not> startswith_underscore (fst kv) \<and> isinstance_serializable (snd kv))"
proof (induction globals arbitrary: acc)
  case Nil
  then show ?case by simp
next
  case (Cons g globals)
  obtain key v where g: "g = (key, v)" by (cases g)
  show ?case
  proof (cases "\<not> startswith_underscore key \<and> isinstance_serializable v")
    case True
    with Cons.prems g have "kv \<in> set (fold (\<lambda>(key, v) variables.
                  if \<not> startswith_underscore key \<and> isinstance_serializable v
                  then AList.update key v variables else variables) globals
                  (AList.update key v acc))"
      by simp
    from Cons.IH[OF this] have "kv \<in> set (AList.update key v acc) \<or>
        (\<not> startswith_underscore (fst kv) \<and> isinstance_serializable (snd kv))" .
    then show ?thesis using True set_update_subset[of key v acc] by auto
  next
    case False
    with Cons.prems g have "kv \<in> set (fold (\<lambda>(key, v) variables.
                  if \<not> startswith_underscore key \<and> isinstance_serializable v
                  then AList.update key v variables else variables) globals acc)"
      by auto
    from Cons.IH[OF this] show ?thesis .
  qed
qed

lemma fold_collect_filter:
  "distinct (map fst globals) \<Longrightarrow> fst ` set acc \<inter> fst ` set globals = {} \<Longrightarrow>
   fold (\<lambda>(key, v) variables.
           if \<not> startswith_underscore key \<and> isinstance_serializable v
           then AList.update key v variables else variables) globals acc
   = acc @ filter (\<lambda>(key, v). \<not> startswith_underscore key \<and> isinstance_serializable v) globals"
proof (induction globals arbitrary: acc)
  case Nil
  then show ?case by simp
next
  case (Cons g globals)
  obtain key v where g: "g = (key, v)" by (cases g)
  from Cons.prems g have fresh: "key \<notin> fst ` set acc" by auto
  from Cons.prems g have d: "distinct (map fst globals)" and nk: "key \<notin> fst ` set globals"
    by auto
  show ?case
  proof (cases "\<not> startswith_underscore key \<and> isinstance_serializable v")
    case True
    have "fst ` set (acc @ [(key, v)]) \<inter> fst ` set globals = {}"
      using Cons.prems nk g by auto
    from Cons.IH[OF d this] True g fresh show ?thesis by (simp add: update_fresh)
  next
    case False
    have "fst ` set acc \<inter> fst ` set globals = {}" using Cons.prems by auto
    from Cons.IH[OF d this] False g show ?thesis by auto
  qed
qed

lemma collect_variables_kept:
  "kv \<in> set (collect_variables task) \<Longrightarrow>
   \<not> startswith_underscore (fst kv) \<and> isinstance_serializable (snd kv)"
  using fold_collect_set[of kv _ "[]"]
  by (auto simp: collect_variables_def split: option.splits)

lemma collect_variables_filter:
  "runtime_globals task = Some globals \<Longrightarrow> distinct (map fst globals) \<Longrightarrow>
   collect_variables task =
     filter (\<lambda>(key, v). \<not> startswith_underscore key \<and> isinstance_serializable v) globals"
  using fold_collect_filter[of globals "[]"] by (simp add: collect_variables_def)

lemma map_of_filter_dropped:
  assumes "distinct (map fst xs)" and "(k, v) \<in> set xs" and "\<not> P (k, v)"
  shows "map_of (filter P xs) k = None"
proof (rule ccontr)
  assume "map_of (filter P xs) k \<noteq> None"
  then obtain v' where "map_of (filter P xs) k = Some v'" by auto
  then have "(k, v') \<in> set (filter P xs)" by (rule map_of_SomeD)
  then have in': "(k, v') \<in> set xs" and p: "P (k, v')" by auto
  from assms(1) assms(2) in' have "v = v'" by (rule eq_key_imp_eq_value)
  with p assms(3) show False by simp
qed

text \<open>Every task result that \<open>execute_task\<close> returns holds the variables that
  \<open>_execute_in_aipyapp\<close> collected from some task, or none.\<close>

lemma execute_task_result_variables:
  assumes "fst (execute_task runtime construction ctx ins extra ex) = Inr r"
  shows "variables r = [] \<or>
     (\<exists>tm d task t. runtime tm ins = Done_after d (Returns task) t \<and> success r \<and>
        variables r = collect_variables task)"
proof (cases ctx construction ex rule: get_task_manager_cases)
  case (1 e ex')
  then have "fst (get_task_manager ctx construction ex) = Inl e" by simp
  from execute_task_construction_raises[OF this] assms show ?thesis by simp
next
  case (2 tm ex')
  then have g: "fst (get_task_manager ctx construction ex) = Inr tm" by simp
  show ?thesis
  proof (cases "merge_context (create_aipyapp_context ctx) extra")
    case (Inl e)
    from execute_task_context_raises[OF g Inl] assms show ?thesis by simp
  next
    case (Inr merged)
    note res = execute_task_resolved[OF g Inr, of runtime ins]
    show ?thesis
    proof (cases "runtime tm ins")
      case Never_done
      with res assms show ?thesis
        by (simp add: execute_in_aipyapp_def wait_for_def)
    next
      case (Done_after d b t)
      show ?thesis
      proof (cases "d < real_of_int (timeout ex)")
        case False
        with res assms Done_after show ?thesis
          by (simp add: execute_in_aipyapp_def wait_for_def)
      next
        case True
        show ?thesis
        proof (cases b)
          case (Raises e)
          from execute_task_Raises[OF g Inr, of runtime ins d e t] Done_after Raises True assms
          show ?thesis by auto
        next
          case (Returns task)
          show ?thesis
          proof (cases "read_results task")
            case (Inl e)
            from execute_task_unreadable[OF g Inr, of runtime ins d task t e]
              Done_after Returns True Inl assms
            show ?thesis by auto
          next
            case (Inr res')
            obtain joined files vars where p: "res' = (joined, files, vars)"
              by (cases res') auto
            have v: "vars = collect_variables task"
              using Inr p read_results_variables by blast
            from execute_task_Returns[OF g \<open>merge_context (create_aipyapp_context ctx) extra =
                Inr merged\<close>, of runtime ins d task t joined files vars]
              Done_after Returns True Inr p assms
            have "r = \<lparr>success = True, result_output = joined, error = None, artifacts = files,
                execution_time = t, variables = vars\<rparr>" by simp
            then have "success r \<and> variables r = collect_variables task" using v by simp
            with Done_after Returns show ?thesis by blast
          qed
        qed
      qed
    qed
  qed
qed

text \<open>
  Claim C9. In every task result that \<open>execute_task\<close> returns, every variable has a
  name that does not begin with an underscore and a value that is an instance of
  \<open>int\<close>, \<open>float\<close>, \<open>str\<close>, \<open>bool\<close>, \<open>list\<close> or \<open>dict\<close>. When the execution completes
  normally (the task manager is resolved, the context is merged, the run returns before
  the deadline and the task can be read), the result is returned with \<open>success = True\<close>
  and its variables are exactly the globals of the runtime that meet both conditions,
  in their order: a global that fails one of them has no entry in the result. Without
  \<open>task.runtime.globals\<close> the result has no variables.
\<close>

theorem variables_filtered:
  "(fst (get_task_manager ctx construction ex) = Inr tm \<and>
    merge_context (create_aipyapp_context ctx) extra = Inr merged \<and>
    runtime tm ins = Done_after d (Returns task) t \<and> d < real_of_int (timeout ex) \<and>
    read_results task = Inr res \<longrightarrow>
      (\<exists>r. fst (execute_task runtime construction ctx ins extra ex) = Inr r \<and> success r \<and>
         (\<forall>kv \<in> set (variables r).
            \<not> startswith_underscore (fst kv) \<and> isinstance_serializable (snd kv)) \<and>
         (runtime_globals task = None \<longrightarrow> variables r = []) \<and>
         (\<forall>globals. runtime_globals task = Some globals \<and> distinct (map fst globals) \<longrightarrow>
            variables r =
              filter (\<lambda>(key, v). \<not> startswith_underscore key \<and> isinstance_serializable v)
                globals \<and>
            (\<forall>kv \<in> set globals.
               startswith_underscore (fst kv) \<or> \<not> isinstance_serializable (snd kv) \<longrightarrow>
               map_of (variables r) (fst kv) = None)))) \<and>
   (fst (execute_task runtime construction ctx ins extra ex) = Inr r' \<longrightarrow>
      (\<forall>kv \<in> set (variables r').
         \<not> startswith_underscore (fst kv) \<and> isinstance_serializable (snd kv)))"
proof (intro conjI impI)
  assume "fst (execute_task runtime construction ctx ins extra ex) = Inr r'"
  from execute_task_result_variables[OF this] collect_variables_kept
  show "\<forall>kv \<in> set (variables r').
         \<not> startswith_underscore (fst kv) \<and> isinstance_serializable (snd kv)"
    by auto
next
  assume a: "fst (get_task_manager ctx construction ex) = Inr tm \<and>
    merge_context (create_aipyapp_context ctx) extra = Inr merged \<and>
    runtime tm ins = Done_after d (Returns task) t \<and> d < real_of_int (timeout ex) \<and>
    read_results task = Inr res"
  obtain joined files vars where p: "res = (joined, files, vars)" by (cases res) auto
  define r where "r = \<lparr>success = True, result_output = joined, error = None,
      artifacts = files, execution_time = t, variables = vars\<rparr>"
  let ?keep = "\<lambda>(key, v). \<not> startswith_underscore key \<and> isinstance_serializable v"
  have v: "vars = collect_variables task"
    using a p read_results_variables by blast
  have vars: "variables r = collect_variables task" and ok: "success r"
    by (simp_all add: r_def v)
  have res: "fst (execute_task runtime construction ctx ins extra ex) = Inr r"
    unfolding r_def using a p execute_task_Returns by blast
  have kept: "\<forall>kv \<in> set (variables r).
        \<not> startswith_underscore (fst kv) \<and> isinstance_serializable (snd kv)"
    unfolding vars using collect_variables_kept by blast
  have none: "runtime_globals task = None \<longrightarrow> variables r = []"
    unfolding vars by (simp add: collect_variables_def)
  have filt: "\<forall>globals. runtime_globals task = Some globals \<and> distinct (map fst globals) \<longrightarrow>
        variables r = filter ?keep globals \<and>
        (\<forall>kv \<in> set globals.
           startswith_underscore (fst kv) \<or> \<not> isinstance_serializable (snd kv) \<longrightarrow>
           map_of (variables r) (fst kv) = None)"
  proof (intro allI impI, elim conjE)
    fix globals
    assume g: "runtime_globals task = Some globals" and d: "distinct (map fst globals)"
    have eq: "variables r = filter ?keep globals"
      unfolding vars using g d by (rule collect_variables_filter)
    have "\<forall>kv \<in> set globals.
           startswith_underscore (fst kv) \<or> \<not> isinstance_serializable (snd kv) \<longrightarrow>
           map_of (filter ?keep globals) (fst kv) = None"
    proof (intro ballI impI)
      fix kv
      assume m: "kv \<in> set globals"
        and v: "startswith_underscore (fst kv) \<or> \<not> isinstance_serializable (snd kv)"
      obtain k x where kv: "kv = (k, x)" by (cases kv)
      from v kv have "\<not> ?keep (k, x)" by auto
      from map_of_filter_dropped[OF d, of k x ?keep] m kv this
      show "map_of (filter ?keep globals) (fst kv) = None" by simp
    qed
    with eq show "variables r = filter ?keep globals \<and>
        (\<forall>kv \<in> set globals.
           startswith_underscore (fst kv) \<or> \<not> isinstance_serializable (snd kv) \<longrightarrow>
           map_of (variables r) (fst kv) = None)"
      by simp
  qed
  show "\<exists>r. fst (execute_task runtime construction ctx ins extra ex) = Inr r \<and> success r \<and>
         (\<forall>kv \<in> set (variables r).
            \<not> startswith_underscore (fst kv) \<and> isinstance_serializable (snd kv)) \<and>
         (runtime_globals task = None \<longrightarrow> variables r = []) \<and>
         (\<forall>globals. runtime_globals task = Some globals \<and> distinct (map fst globals) \<longrightarrow>
            variables r = filter ?keep globals \<and>
            (\<forall>kv \<in> set globals.
               startswith_underscore (fst kv) \<or> \<not> isinstance_serializable (snd kv) \<longrightarrow>
               map_of (variables r) (fst kv) = None))"
    by (intro exI[of _ r] conjI res ok kept none filt)
qed

text \<open>The theorem for a task that leaves four globals: \<open>result\<close> and \<open>name\<close> are kept,
  the private \<open>_cache\<close> and the function \<open>helper\<close> are dropped.\<close>

theorem variables_filtered_witness:
  "fst (get_task_manager mock_ctx (Inr []) mock_executor) =
     Inr (TaskManager (PathDiv (Path ''aipyapp_test'') ''test_chat_test_user'') []) \<and>
   merge_context (create_aipyapp_context mock_ctx) None =
     Inr (map (\<lambda>kv. (PyStr (fst kv), snd kv)) (create_aipyapp_context mock_ctx)) \<and>
   returning_runtime (TaskManager (PathDiv (Path ''aipyapp_test'') ''test_chat_test_user'') [])
     ''Calculate 2 + 2'' = Done_after (5 / 2) (Returns finished_task) (5 / 2) \<and>
   (5 / 2 :: real) < real_of_int (timeout mock_executor) \<and>
   read_results finished_task =
     Inr (''2 + 2 = 4'', [''plot.png''], [(''result'', PyInt 4), (''name'', PyStr ''a'')]) \<and>
   runtime_globals finished_task =
     Some [(''result'', PyInt 4), (''_cache'', PyInt 1),
           (''helper'', PyObject ''function''), (''name'', PyStr ''a'')] \<and>
   (\<exists>r. fst (execute_task returning_runtime (Inr []) mock_ctx ''Calculate 2 + 2'' None
               mock_executor) = Inr r \<and> success r \<and>
        variables r = [(''result'', PyInt 4), (''name'', PyStr ''a'')])"
proof -
  let ?tm = "TaskManager (PathDiv (Path ''aipyapp_test'') ''test_chat_test_user'') []"
  let ?globals = "[(''result'', PyInt 4), (''_cache'', PyInt 1),
           (''helper'', PyObject ''function''), (''name'', PyStr ''a'')]"
  have r: "returning_runtime ?tm ''Calculate 2 + 2'' =
      Done_after (5 / 2) (Returns finished_task) (5 / 2)"
    by (simp add: returning_runtime_def)
  have early: "(5 / 2 :: real) < real_of_int (timeout mock_executor)"
    by (simp add: mock_executor_def)
  have rd: "read_results finished_task =
     Inr (''2 + 2 = 4'', [''plot.png''], [(''result'', PyInt 4), (''name'', PyStr ''a'')])"
    by (simp add: read_results_def finished_task_def output_lines_def join_def
        collect_artifacts_def artifact_suffixes_def collect_variables_def
        startswith_underscore_def Let_def)
  have gl: "runtime_globals finished_task = Some ?globals"
    by (simp add: finished_task_def)
  have d: "distinct (map fst ?globals)" by simp
  note hyps = conjI[OF mock_task_manager conjI[OF mock_context conjI[OF r conjI[OF early rd]]]]
  from variables_filtered[where runtime = returning_runtime and ins = "''Calculate 2 + 2''"
      and extra = None, THEN conjunct1, THEN mp, OF hyps]
  obtain res where res: "fst (execute_task returning_runtime (Inr []) mock_ctx
        ''Calculate 2 + 2'' None mock_executor) = Inr res" and ok: "success res"
    and f: "\<forall>globals. runtime_globals finished_task = Some globals \<and>
        distinct (map fst globals) \<longrightarrow>
        variables res =
          filter (\<lambda>(key, v). \<not> startswith_underscore key \<and> isinstance_serializable v) globals \<and>
        (\<forall>kv \<in> set globals.
           startswith_underscore (fst kv) \<or> \<not> isinstance_serializable (snd kv) \<longrightarrow>
           map_of (variables res) (fst kv) = None)"
    by blast
  from f gl d have "variables res =
      filter (\<lambda>(key, v). \<not> startswith_underscore key \<and> isinstance_serializable v) ?globals"
    by blast
  then have "variables res = [(''result'', PyInt 4), (''name'', PyStr ''a'')]"
    by (simp add: startswith_underscore_def)
  with res ok have e: "\<exists>r. fst (execute_task returning_runtime (Inr []) mock_ctx
      ''Calculate 2 + 2'' None mock_executor) = Inr r \<and> success r \<and>
        variables r = [(''result'', PyInt 4), (''name'', PyStr ''a'')]"
    by blast
  show ?thesis by (intro conjI mock_task_manager mock_context r early rd gl e)
qed

section \<open>The session pool\<close>

lemma cleanup_session_sessions:
  "sessions (snd (cleanup_session k m)) = AList.delete k (sessions m)"
proof (cases "map_of (sessions m) k")
  case None
  then have "k \<notin> fst ` set (sessions m)" by (simp add: map_of_eq_None_iff)
  then show ?thesis using None by (simp add: cleanup_session_def)
next
  case (Some s)
  then show ?thesis by (simp add: cleanup_session_def)
qed

lemma cleanup_session_fields:
  "max_sessions (snd (cleanup_session k m)) = max_sessions m"
  "session_timeout (snd (cleanup_session k m)) = session_timeout m"
  "pool_workdir (snd (cleanup_session k m)) = pool_workdir m"
  by (simp_all add: cleanup_session_def split: option.splits)

lemma min_by_in: "min_by f x xs \<in> set (x # xs)"
  by (induction xs arbitrary: x) auto

lemma min_by_le: "y \<in> set (x # xs) \<Longrightarrow> f (min_by f x xs) \<le> f y"
proof (induction xs arbitrary: x y)
  case Nil
  then show ?case by simp
next
  case (Cons z zs)
  have step: "f (min_by f x (z # zs)) \<le> f x \<and> f (min_by f x (z # zs)) \<le> f z"
  proof (cases "f z < f x")
    case True
    then have "min_by f x (z # zs) = min_by f z zs" by simp
    moreover have "f (min_by f z zs) \<le> f z" using Cons.IH[where x = z and y = z] by simp
    ultimately show ?thesis using True by auto
  next
    case False
    then have "min_by f x (z # zs) = min_by f x zs" by simp
    moreover have "f (min_by f x zs) \<le> f x" using Cons.IH[where x = x and y = x] by simp
    ultimately show ?thesis using False by auto
  qed
  show ?case
  proof (cases "y = x \<or> y = z")
    case True
    with step show ?thesis by auto
  next
    case False
    with Cons.prems have yin: "y \<in> set zs" by auto
    show ?thesis
    proof (cases "f z < f x")
      case True
      then show ?thesis using Cons.IH[where x = z and y = y] yin by simp
    next
      case False
      then show ?thesis using Cons.IH[where x = x and y = y] yin by simp
    qed
  qed
qed

text \<open>The scan returns the first element, in iteration order, whose key is smallest:
  every element before it has a strictly larger key.\<close>

lemma min_by_first:
  "\<exists>us vs. x # xs = us @ min_by f x xs # vs \<and>
     (\<forall>u \<in> set us. f (min_by f x xs) < f u) \<and>
     (\<forall>v \<in> set vs. f (min_by f x xs) \<le> f v)"
proof (induction xs arbitrary: x)
  case Nil
  have "[x] = [] @ min_by f x [] # []" by simp
  then show ?case by fastforce
next
  case (Cons y ys)
  show ?case
  proof (cases "f y < f x")
    case True
    let ?m = "min_by f y ys"
    from Cons.IH[of y] obtain us vs where d: "y # ys = us @ ?m # vs"
      and b: "\<forall>u \<in> set us. f ?m < f u" and a: "\<forall>v \<in> set vs. f ?m \<le> f v"
      by blast
    have "f ?m \<le> f y" by (rule min_by_le) simp
    with True have lt: "f ?m < f x" by simp
    have m: "min_by f x (y # ys) = ?m" using True by simp
    have d': "x # y # ys = (x # us) @ ?m # vs" using d by simp
    have b': "\<forall>u \<in> set (x # us). f ?m < f u" using b lt by simp
    show ?thesis unfolding m by (intro exI[of _ "x # us"] exI[of _ vs] conjI d' b' a)
  next
    case False
    let ?m = "min_by f x ys"
    have m: "min_by f x (y # ys) = ?m" using False by simp
    from Cons.IH[of x] obtain us vs where d: "x # ys = us @ ?m # vs"
      and b: "\<forall>u \<in> set us. f ?m < f u" and a: "\<forall>v \<in> set vs. f ?m \<le> f v"
      by blast
    show ?thesis
    proof (cases us)
      case Nil
      with d have mx: "?m = x" and vs: "vs = ys" by auto
      have d': "x # y # ys = [] @ ?m # (y # ys)" using mx by simp
      have b': "\<forall>u \<in> set []. f ?m < f u" by simp
      have a': "\<forall>v \<in> set (y # ys). f ?m \<le> f v" using a vs mx False by simp
      show ?thesis unfolding m by (intro exI[of _ "[]"] exI[of _ "y # ys"] conjI d' b' a')
    next
      case (Cons u us')
      with d have ux: "u = x" and ys: "ys = us' @ ?m # vs" by auto
      from b Cons ux have lt: "f ?m < f x" by simp
      with False have lty: "f ?m < f y" by simp
      have d': "x # y # ys = (x # y # us') @ ?m # vs" using ys by simp
      have b': "\<forall>u \<in> set (x # y # us'). f ?m < f u" using b Cons lt lty by simp
      show ?thesis unfolding m by (intro exI[of _ "x # y # us'"] exI[of _ vs] conjI d' b' a)
    qed
  qed
qed

lemma cleanup_session_snd:
  "snd (cleanup_session k m) = m\<lparr>sessions := AList.delete k (sessions m)\<rparr>"
proof (cases "map_of (sessions m) k")
  case None
  then have "k \<notin> fst ` set (sessions m)" by (simp add: map_of_eq_None_iff)
  then have "AList.delete k (sessions m) = sessions m" by simp
  with None show ?thesis by (simp add: cleanup_session_def)
next
  case (Some s)
  then show ?thesis by (simp add: cleanup_session_def)
qed

lemma length_delete_present:
  "k \<in> fst ` set al \<Longrightarrow> length (AList.delete k al) < length al"
proof (induction al)
  case Nil
  then show ?case by simp
next
  case (Cons p al)
  show ?case
  proof (cases "fst p = k")
    case True
    have "length (AList.delete k al) \<le> length al" by (rule length_delete_le)
    with True show ?thesis by (cases p) (auto simp: less_Suc_eq_le)
  next
    case False
    with Cons show ?thesis by (cases p) auto
  qed
qed

lemma length_delete_distinct:
  "distinct (map fst al) \<Longrightarrow> k \<in> fst ` set al \<Longrightarrow>
   Suc (length (AList.delete k al)) = length al"
proof (induction al)
  case Nil
  then show ?case by simp
next
  case (Cons p al)
  obtain k' v where p: "p = (k', v)" by (cases p)
  show ?case
  proof (cases "k' = k")
    case True
    with Cons.prems p have "k \<notin> fst ` set al" by auto
    then have "AList.delete k al = al" by simp
    with True p show ?thesis by simp
  next
    case False
    with Cons p show ?thesis by auto
  qed
qed

lemma length_update_le: "length (AList.update k v al) \<le> Suc (length al)"
  by (induction al) auto

lemma cleanup_oldest_session_sessions:
  "map fst (sessions m) = k # ks \<Longrightarrow>
   sessions (cleanup_oldest_session m) =
     AList.delete (min_by (last_accessed_of m) k ks) (sessions m)"
  by (simp add: cleanup_oldest_session_def cleanup_session_sessions Let_def)

lemma cleanup_oldest_session_empty:
  "sessions m = [] \<Longrightarrow> cleanup_oldest_session m = m"
  by (simp add: cleanup_oldest_session_def)

lemma cleanup_oldest_session_fields:
  "max_sessions (cleanup_oldest_session m) = max_sessions m"
  "session_timeout (cleanup_oldest_session m) = session_timeout m"
  "pool_workdir (cleanup_oldest_session m) = pool_workdir m"
  by (simp_all add: cleanup_oldest_session_def cleanup_session_fields Let_def split: list.splits)

lemma cleanup_oldest_session_length:
  "sessions m \<noteq> [] \<Longrightarrow>
   length (sessions (cleanup_oldest_session m)) < length (sessions m)"
proof -
  assume "sessions m \<noteq> []"
  then obtain k ks where ks: "map fst (sessions m) = k # ks"
    by (cases "sessions m") auto
  have "min_by (last_accessed_of m) k ks \<in> set (k # ks)" by (rule min_by_in)
  with ks have "min_by (last_accessed_of m) k ks \<in> fst ` set (sessions m)"
    by (metis set_map)
  then show ?thesis
    using cleanup_oldest_session_sessions[OF ks] length_delete_present by metis
qed

text \<open>One call of \<open>create_session\<close> keeps the pool within its capacity, when the
  capacity is at least one.\<close>

lemma create_session_fields:
  "max_sessions (snd (create_session sid cfg mk t1 t2 m)) = max_sessions m"
  "session_timeout (snd (create_session sid cfg mk t1 t2 m)) = session_timeout m"
  "pool_workdir (snd (create_session sid cfg mk t1 t2 m)) = pool_workdir m"
  by (simp_all add: create_session_def cleanup_oldest_session_fields Let_def
      split: option.splits)

lemma create_session_capacity:
  assumes "1 \<le> max_sessions m" and "int (length (sessions m)) \<le> max_sessions m"
  shows "int (length (sessions (snd (create_session sid cfg mk t1 t2 m)))) \<le> max_sessions m"
proof (cases "sid \<in> set (map fst (sessions m))")
  case True
  with assms show ?thesis by (simp add: create_session_def)
next
  case False
  define m1 where "m1 = (if int (length (sessions m)) \<ge> max_sessions m
                   then cleanup_oldest_session m else m)"
  have room: "int (length (sessions m1)) < max_sessions m"
  proof (cases "int (length (sessions m)) \<ge> max_sessions m")
    case True
    with assms have "sessions m \<noteq> []" by auto
    from cleanup_oldest_session_length[OF this] True assms show ?thesis
      by (simp add: m1_def)
  next
    case False
    then show ?thesis by (simp add: m1_def)
  qed
  have upd: "int (length (AList.update sid v (sessions m1))) \<le> max_sessions m" for v
    using length_update_le[of sid v "sessions m1"] room by linarith
  show ?thesis
    using False room upd
    by (cases mk) (simp_all add: create_session_def Let_def m1_def[symmetric])
qed

lemma create_session_distinct:
  assumes "distinct (map fst (sessions m))"
  shows "distinct (map fst (sessions (snd (create_session sid cfg mk t1 t2 m))))"
proof -
  have "distinct (map fst (sessions (cleanup_oldest_session m)))"
  proof (cases "sessions m")
    case Nil
    then show ?thesis using assms by (simp add: cleanup_oldest_session_empty)
  next
    case (Cons p ps)
    then have "map fst (sessions m) = fst p # map fst ps" by simp
    from cleanup_oldest_session_sessions[OF this] assms show ?thesis
      by (simp add: distinct_delete)
  qed
  with assms show ?thesis
    by (simp add: create_session_def Let_def distinct_update split: option.splits)
qed

lemma create_sessions_capacity:
  "1 \<le> max_sessions m \<Longrightarrow> int (length (sessions m)) \<le> max_sessions m \<Longrightarrow>
   int (length (sessions (create_sessions calls m))) \<le> max_sessions m \<and>
   max_sessions (create_sessions calls m) = max_sessions m"
proof (induction calls arbitrary: m)
  case Nil
  then show ?case by (simp add: create_sessions_def)
next
  case (Cons c calls)
  let ?m = "create_call_step c m"
  have cap: "int (length (sessions ?m)) \<le> max_sessions m"
    unfolding create_call_step_def using Cons.prems by (rule create_session_capacity)
  have mx: "max_sessions ?m = max_sessions m"
    by (simp add: create_call_step_def create_session_fields)
  from Cons.IH[of ?m] cap mx Cons.prems(1) show ?case
    by (simp add: create_sessions_def)
qed

lemma create_sessions_distinct:
  "distinct (map fst (sessions m)) \<Longrightarrow> distinct (map fst (sessions (create_sessions calls m)))"
proof (induction calls arbitrary: m)
  case Nil
  then show ?case by (simp add: create_sessions_def)
next
  case (Cons c calls)
  have "distinct (map fst (sessions (create_call_step c m)))"
    unfolding create_call_step_def using Cons.prems by (rule create_session_distinct)
  from Cons.IH[OF this] show ?case by (simp add: create_sessions_def)
qed

text \<open>A call with a fresh key on a pool at capacity: the record evicted is the first, in
  the order of the pool, whose \<open>last_accessed\<close> is smallest; the new record is stored
  unless \<open>mkdir\<close> raises.\<close>

lemma create_session_evicts:
  assumes fresh: "sid \<notin> fst ` set (sessions m)"
    and ne: "sessions m \<noteq> []"
    and full: "max_sessions m \<le> int (length (sessions m))"
  obtains us oldest vs where "map fst (sessions m) = us @ oldest # vs"
    and "\<forall>k \<in> set us. last_accessed_of m oldest < last_accessed_of m k"
    and "\<forall>k \<in> set vs. last_accessed_of m oldest \<le> last_accessed_of m k"
    and "create_session sid cfg mk t1 t2 m =
           (case mk of
              None \<Rightarrow>
                (Inr (),
                 m\<lparr>sessions := AList.delete oldest (sessions m) @
                   [(sid, \<lparr>workdir = PathDiv (pool_workdir m) sid, config = get_default cfg [],
                           task_manager = None, created_at = t1, last_accessed = t2,
                           task_count = 0\<rparr>)]\<rparr>)
            | Some e \<Rightarrow> (Inl e, m\<lparr>sessions := AList.delete oldest (sessions m)\<rparr>))"
proof -
  from ne obtain k ks where ks: "map fst (sessions m) = k # ks"
    by (cases "sessions m") auto
  define oldest where "oldest = min_by (last_accessed_of m) k ks"
  from min_by_first[of k ks "last_accessed_of m"]
  obtain us vs where dec: "k # ks = us @ oldest # vs"
    and before: "\<forall>u \<in> set us. last_accessed_of m oldest < last_accessed_of m u"
    and after: "\<forall>v \<in> set vs. last_accessed_of m oldest \<le> last_accessed_of m v"
    unfolding oldest_def by blast
  have dec': "map fst (sessions m) = us @ oldest # vs" using ks dec by simp
  have del: "cleanup_oldest_session m = m\<lparr>sessions := AList.delete oldest (sessions m)\<rparr>"
    using ks by (simp add: cleanup_oldest_session_def cleanup_session_snd oldest_def Let_def)
  have "fst ` set (AList.delete oldest (sessions m)) \<subseteq> fst ` set (sessions m)"
    by (rule dom_delete_subset)
  with fresh have fresh': "sid \<notin> fst ` set (AList.delete oldest (sessions m))" by auto
  have res: "create_session sid cfg mk t1 t2 m =
           (case mk of
              None \<Rightarrow>
                (Inr (),
                 m\<lparr>sessions := AList.delete oldest (sessions m) @
                   [(sid, \<lparr>workdir = PathDiv (pool_workdir m) sid, config = get_default cfg [],
                           task_manager = None, created_at = t1, last_accessed = t2,
                           task_count = 0\<rparr>)]\<rparr>)
            | Some e \<Rightarrow> (Inl e, m\<lparr>sessions := AList.delete oldest (sessions m)\<rparr>))"
    using fresh full update_fresh[OF fresh']
    by (cases mk) (simp_all add: create_session_def Let_def del)
  show ?thesis by (rule that[OF dec' before after res])
qed

lemma five_then_sixth:
  assumes "a0 < a1" and "a1 < a2" and "a2 < a3" and "a3 < a4"
  shows "map fst (sessions (create_sessions
           [create ''s0'' a0, create ''s1'' a1, create ''s2'' a2, create ''s3'' a3,
            create ''s4'' a4, create ''s5'' a5] test_pool)) =
         [''s1'', ''s2'', ''s3'', ''s4'', ''s5'']"
  using assms
  by (simp add: create_sessions_def create_call_step_def create_def create_session_def
      test_pool_def Let_def get_default_def cleanup_oldest_session_def cleanup_session_def
      last_accessed_of_def)

text \<open>
  Claim C4, as the code has it. When \<open>max_sessions\<close> is at least one, every sequence of
  \<open>create_session\<close> calls on a pool within its capacity (the empty pool is one) leaves a
  pool that holds no more than \<open>max_sessions\<close> records. A call with a fresh key on a
  pool that is not empty and at capacity removes exactly one record and keeps every
  other record: the record removed is the first, in the insertion order of the pool,
  whose \<open>last_accessed\<close> is the minimum, so every record before it is strictly younger
  and no record after it is older. The call then appends the new record and returns,
  unless making the session's directory raises: then the exception leaves the call, the
  eviction stays and no record is added. With \<open>max_sessions = 5\<close>, creating \<open>s0\<close> to
  \<open>s4\<close> at increasing times and then \<open>s5\<close> leaves exactly \<open>s1\<close>, \<open>s2\<close>, \<open>s3\<close>, \<open>s4\<close>,
  \<open>s5\<close>.
\<close>

theorem pool_capacity:
  "(1 \<le> max_sessions m \<and> int (length (sessions m)) \<le> max_sessions m \<longrightarrow>
      int (length (sessions (create_sessions calls m))) \<le> max_sessions m) \<and>
   (sid \<notin> fst ` set (sessions m) \<and> sessions m \<noteq> [] \<and> distinct (map fst (sessions m)) \<and>
    max_sessions m \<le> int (length (sessions m)) \<longrightarrow>
      (\<exists>us oldest vs. map fst (sessions m) = us @ oldest # vs \<and>
         (\<forall>k \<in> set us. last_accessed_of m oldest < last_accessed_of m k) \<and>
         (\<forall>k \<in> set vs. last_accessed_of m oldest \<le> last_accessed_of m k) \<and>
         Suc (length (AList.delete oldest (sessions m))) = length (sessions m) \<and>
         map_of (AList.delete oldest (sessions m)) oldest = None \<and>
         (\<forall>k. k \<noteq> oldest \<longrightarrow>
            map_of (AList.delete oldest (sessions m)) k = map_of (sessions m) k) \<and>
         create_session sid cfg mk created accessed m =
           (case mk of
              None \<Rightarrow>
                (Inr (),
                 m\<lparr>sessions := AList.delete oldest (sessions m) @
                   [(sid, \<lparr>workdir = PathDiv (pool_workdir m) sid, config = get_default cfg [],
                           task_manager = None, created_at = created,
                           last_accessed = accessed, task_count = 0\<rparr>)]\<rparr>)
            | Some e \<Rightarrow> (Inl e, m\<lparr>sessions := AList.delete oldest (sessions m)\<rparr>)))) \<and>
   (ta < tb \<and> tb < tc \<and> tc < td \<and> td < te \<longrightarrow>
      map fst (sessions (create_sessions
           [create ''s0'' ta, create ''s1'' tb, create ''s2'' tc, create ''s3'' td,
            create ''s4'' te, create ''s5'' tf] test_pool)) =
         [''s1'', ''s2'', ''s3'', ''s4'', ''s5''])"
proof (intro conjI impI)
  assume "1 \<le> max_sessions m \<and> int (length (sessions m)) \<le> max_sessions m"
  then show "int (length (sessions (create_sessions calls m))) \<le> max_sessions m"
    using create_sessions_capacity by blast
next
  assume a: "sid \<notin> fst ` set (sessions m) \<and> sessions m \<noteq> [] \<and>
    distinct (map fst (sessions m)) \<and> max_sessions m \<le> int (length (sessions m))"
  then have fresh: "sid \<notin> fst ` set (sessions m)" and ne: "sessions m \<noteq> []"
    and d: "distinct (map fst (sessions m))"
    and full: "max_sessions m \<le> int (length (sessions m))" by auto
  from create_session_evicts[OF fresh ne full, of cfg mk created accessed]
  obtain us oldest vs where dec: "map fst (sessions m) = us @ oldest # vs"
    and before: "\<forall>k \<in> set us. last_accessed_of m oldest < last_accessed_of m k"
    and after: "\<forall>k \<in> set vs. last_accessed_of m oldest \<le> last_accessed_of m k"
    and res: "create_session sid cfg mk created accessed m =
           (case mk of
              None \<Rightarrow>
                (Inr (),
                 m\<lparr>sessions := AList.delete oldest (sessions m) @
                   [(sid, \<lparr>workdir = PathDiv (pool_workdir m) sid, config = get_default cfg [],
                           task_manager = None, created_at = created,
                           last_accessed = accessed, task_count = 0\<rparr>)]\<rparr>)
            | Some e \<Rightarrow> (Inl e, m\<lparr>sessions := AList.delete oldest (sessions m)\<rparr>))"
    by blast
  have "oldest \<in> set (map fst (sessions m))" unfolding dec by simp
  then have o: "oldest \<in> fst ` set (sessions m)" by simp
  have len: "Suc (length (AList.delete oldest (sessions m))) = length (sessions m)"
    using d o by (rule length_delete_distinct)
  have gone: "map_of (AList.delete oldest (sessions m)) oldest = None"
    by (simp add: delete_conv')
  have others: "\<forall>k. k \<noteq> oldest \<longrightarrow>
            map_of (AList.delete oldest (sessions m)) k = map_of (sessions m) k"
    by simp
  show "\<exists>us oldest vs. map fst (sessions m) = us @ oldest # vs \<and>
         (\<forall>k \<in> set us. last_accessed_of m oldest < last_accessed_of m k) \<and>
         (\<forall>k \<in> set vs. last_accessed_of m oldest \<le> last_accessed_of m k) \<and>
         Suc (length (AList.delete oldest (sessions m))) = length (sessions m) \<and>
         map_of (AList.delete oldest (sessions m)) oldest = None \<and>
         (\<forall>k. k \<noteq> oldest \<longrightarrow>
            map_of (AList.delete oldest (sessions m)) k = map_of (sessions m) k) \<and>
         create_session sid cfg mk created accessed m =
           (case mk of
              None \<Rightarrow>
                (Inr (),
                 m\<lparr>sessions := AList.delete oldest (sessions m) @
                   [(sid, \<lparr>workdir = PathDiv (pool_workdir m) sid, config = get_default cfg [],
                           task_manager = None, created_at = created,
                           last_accessed = accessed, task_count = 0\<rparr>)]\<rparr>)
            | Some e \<Rightarrow> (Inl e, m\<lparr>sessions := AList.delete oldest (sessions m)\<rparr>))"
    by (intro exI[of _ us] exI[of _ oldest] exI[of _ vs] conjI dec before after len gone
        others res)
next
  assume "ta < tb \<and> tb < tc \<and> tc < td \<and> td < te"
  then show "map fst (sessions (create_sessions
           [create ''s0'' ta, create ''s1'' tb, create ''s2'' tc, create ''s3'' td,
            create ''s4'' te, create ''s5'' tf] test_pool)) =
         [''s1'', ''s2'', ''s3'', ''s4'', ''s5'']"
    using five_then_sixth by blast
qed

text \<open>
  The theorem at the pool of the tests: six calls on the empty pool stay within five
  records and leave \<open>s1\<close> to \<open>s5\<close>. And at a pool of five sessions in which \<open>s1\<close> and \<open>s3\<close>
  share the smallest \<open>last_accessed\<close>: a call for \<open>s5\<close> evicts \<open>s1\<close>, the first of the
  two, and appends \<open>s5\<close>; when \<open>mkdir\<close> raises, \<open>s1\<close> is evicted all the same and \<open>s5\<close> is
  not stored.
\<close>

theorem pool_capacity_witness:
  "1 \<le> max_sessions test_pool \<and> int (length (sessions test_pool)) \<le> max_sessions test_pool \<and>
   int (length (sessions (create_sessions
           [create ''s0'' 0, create ''s1'' 1, create ''s2'' 2, create ''s3'' 3,
            create ''s4'' 4, create ''s5'' 5] test_pool))) \<le> max_sessions test_pool \<and>
   ''s5'' \<notin> fst ` set (sessions tied_pool) \<and> sessions tied_pool \<noteq> [] \<and>
   distinct (map fst (sessions tied_pool)) \<and>
   max_sessions tied_pool \<le> int (length (sessions tied_pool)) \<and>
   map (\<lambda>(sid, s). (sid, last_accessed s)) (sessions tied_pool) =
     [(''s0'', 5), (''s1'', 1), (''s2'', 2), (''s3'', 1), (''s4'', 4)] \<and>
   create_session ''s5'' None None 6 6 tied_pool =
     (Inr (),
      tied_pool\<lparr>sessions :=
        [(''s0'', new_session ''s0'' 5), (''s2'', new_session ''s2'' 2),
         (''s3'', new_session ''s3'' 1), (''s4'', new_session ''s4'' 4),
         (''s5'', new_session ''s5'' 6)]\<rparr>) \<and>
   create_session ''s5'' None (Some PermissionError) 6 6 tied_pool =
     (Inl PermissionError,
      tied_pool\<lparr>sessions :=
        [(''s0'', new_session ''s0'' 5), (''s2'', new_session ''s2'' 2),
         (''s3'', new_session ''s3'' 1), (''s4'', new_session ''s4'' 4)]\<rparr>) \<and>
   map fst (sessions (create_sessions
           [create ''s0'' 0, create ''s1'' 1, create ''s2'' 2, create ''s3'' 3,
            create ''s4'' 4, create ''s5'' 5] test_pool)) =
     [''s1'', ''s2'', ''s3'', ''s4'', ''s5'']"
proof -
  let ?calls = "[create ''s0'' 0, create ''s1'' 1, create ''s2'' 2, create ''s3'' 3,
            create ''s4'' 4, create ''s5'' 5]"
  have p1: "1 \<le> max_sessions test_pool \<and>
      int (length (sessions test_pool)) \<le> max_sessions test_pool"
    by (simp add: test_pool_def)
  have p2: "''s5'' \<notin> fst ` set (sessions tied_pool) \<and> sessions tied_pool \<noteq> [] \<and>
      distinct (map fst (sessions tied_pool)) \<and>
      max_sessions tied_pool \<le> int (length (sessions tied_pool))"
    by (simp add: tied_pool_def test_pool_def)
  have p3: "(0::real) < 1 \<and> (1::real) < 2 \<and> (2::real) < 3 \<and> (3::real) < 4" by simp
  have times: "map (\<lambda>(sid, s). (sid, last_accessed s)) (sessions tied_pool) =
     [(''s0'', 5), (''s1'', 1), (''s2'', 2), (''s3'', 1), (''s4'', 4)]"
    by (simp add: tied_pool_def new_session_def)
  have la: "last_accessed_of tied_pool ''s0'' = 5" "last_accessed_of tied_pool ''s1'' = 1"
    "last_accessed_of tied_pool ''s2'' = 2" "last_accessed_of tied_pool ''s3'' = 1"
    "last_accessed_of tied_pool ''s4'' = 4"
    by (simp_all add: last_accessed_of_def tied_pool_def new_session_def)
  have keys: "map fst (sessions tied_pool) = [''s0'', ''s1'', ''s2'', ''s3'', ''s4'']"
    by (simp add: tied_pool_def)
  have first: "oldest = ''s1''"
    if dec: "map fst (sessions tied_pool) = us @ oldest # vs"
      and before: "\<forall>k \<in> set us. last_accessed_of tied_pool oldest < last_accessed_of tied_pool k"
      and after: "\<forall>k \<in> set vs. last_accessed_of tied_pool oldest \<le> last_accessed_of tied_pool k"
    for us oldest vs
    using dec before after unfolding keys
    by (auto simp add: Cons_eq_append_conv la)
  have del: "AList.delete ''s1'' (sessions tied_pool) =
      [(''s0'', new_session ''s0'' 5), (''s2'', new_session ''s2'' 2),
       (''s3'', new_session ''s3'' 1), (''s4'', new_session ''s4'' 4)]"
    by (simp add: tied_pool_def)
  have new: "\<lparr>workdir = PathDiv (pool_workdir tied_pool) ''s5'', config = get_default None [],
          task_manager = None, created_at = 6, last_accessed = 6, task_count = 0\<rparr> =
        new_session ''s5'' 6"
    by (simp add: new_session_def tied_pool_def test_pool_def get_default_def)
  note at_test = pool_capacity[where m = test_pool and calls = ?calls
      and ta = 0 and tb = 1 and tc = 2 and td = 3 and te = 4 and tf = 5]
  have c1: "int (length (sessions (create_sessions ?calls test_pool))) \<le> max_sessions test_pool"
    using at_test[THEN conjunct1, THEN mp, OF p1] .
  have c3: "map fst (sessions (create_sessions ?calls test_pool)) =
      [''s1'', ''s2'', ''s3'', ''s4'', ''s5'']"
    using at_test[THEN conjunct2, THEN conjunct2, THEN mp, OF p3] .
  from pool_capacity[where m = tied_pool and sid = "''s5''" and cfg = None and mk = None
      and created = 6 and accessed = 6, THEN conjunct2, THEN conjunct1, THEN mp, OF p2]
  obtain us oldest vs where dec: "map fst (sessions tied_pool) = us @ oldest # vs"
    and before: "\<forall>k \<in> set us. last_accessed_of tied_pool oldest < last_accessed_of tied_pool k"
    and after: "\<forall>k \<in> set vs. last_accessed_of tied_pool oldest \<le> last_accessed_of tied_pool k"
    and res: "create_session ''s5'' None None 6 6 tied_pool =
        (Inr (),
         tied_pool\<lparr>sessions := AList.delete oldest (sessions tied_pool) @
           [(''s5'', \<lparr>workdir = PathDiv (pool_workdir tied_pool) ''s5'',
                     config = get_default None [],
                     task_manager = None, created_at = 6, last_accessed = 6,
                     task_count = 0\<rparr>)]\<rparr>)"
    by auto
  have stored: "create_session ''s5'' None None 6 6 tied_pool =
     (Inr (),
      tied_pool\<lparr>sessions :=
        [(''s0'', new_session ''s0'' 5), (''s2'', new_session ''s2'' 2),
         (''s3'', new_session ''s3'' 1), (''s4'', new_session ''s4'' 4),
         (''s5'', new_session ''s5'' 6)]\<rparr>)"
    using res unfolding first[OF dec before after] del new by simp
  from pool_capacity[where m = tied_pool and sid = "''s5''" and cfg = None
      and mk = "Some PermissionError" and created = 6 and accessed = 6,
      THEN conjunct2, THEN conjunct1, THEN mp, OF p2]
  obtain us' oldest' vs' where dec': "map fst (sessions tied_pool) = us' @ oldest' # vs'"
    and before': "\<forall>k \<in> set us'.
        last_accessed_of tied_pool oldest' < last_accessed_of tied_pool k"
    and after': "\<forall>k \<in> set vs'.
        last_accessed_of tied_pool oldest' \<le> last_accessed_of tied_pool k"
    and res': "create_session ''s5'' None (Some PermissionError) 6 6 tied_pool =
        (Inl PermissionError,
         tied_pool\<lparr>sessions := AList.delete oldest' (sessions tied_pool)\<rparr>)"
    by auto
  have raised: "create_session ''s5'' None (Some PermissionError) 6 6 tied_pool =
     (Inl PermissionError,
      tied_pool\<lparr>sessions :=
        [(''s0'', new_session ''s0'' 5), (''s2'', new_session ''s2'' 2),
         (''s3'', new_session ''s3'' 1), (''s4'', new_session ''s4'' 4)]\<rparr>)"
    using res' unfolding first[OF dec' before' after'] del by simp
  show ?thesis
    by (intro conjI p1[THEN conjunct1] p1[THEN conjunct2] c1 p2[THEN conjunct1]
        p2[THEN conjunct2, THEN conjunct1] p2[THEN conjunct2, THEN conjunct2, THEN conjunct1]
        p2[THEN conjunct2, THEN conjunct2, THEN conjunct2] times stored raised c3)
qed

text \<open>
  Against claim C4 as stated: with \<open>max_sessions = 0\<close> the first call on the empty pool
  has nothing to evict and stores its record, so the pool holds one record, more than
  \<open>max_sessions\<close>.
\<close>

theorem pool_capacity_counterexample:
  "sessions zero_pool = [] \<and>
   max_sessions (create_sessions [create ''s0'' 0] zero_pool) = 0 \<and>
   map fst (sessions (create_sessions [create ''s0'' 0] zero_pool)) = [''s0''] \<and>
   max_sessions (create_sessions [create ''s0'' 0] zero_pool) <
     int (length (sessions (create_sessions [create ''s0'' 0] zero_pool)))"
  by (simp add: zero_pool_def test_pool_def create_sessions_def create_call_step_def create_def
      create_session_def Let_def cleanup_oldest_session_def get_default_def)

text \<open>
  Claim C10. A call of \<open>create_session\<close> with a session id that is in the pool returns
  without an error and leaves the whole pool as it was: every record, with its
  configuration and its counters, and the pool's size, whatever configuration the call
  brings and whether or not the pool is at capacity.
\<close>

theorem create_existing_session:
  "sid \<in> fst ` set (sessions m) \<Longrightarrow> create_session sid cfg mk t1 t2 m = (Inr (), m)"
  by (simp add: create_session_def)

text \<open>The theorem for the pool of five sessions, which is at capacity, and a second
  call for \<open>s2\<close> that brings a configuration.\<close>

theorem create_existing_session_witness:
  "''s2'' \<in> fst ` set (sessions full_pool) \<and>
   max_sessions full_pool = int (length (sessions full_pool)) \<and>
   create_session ''s2'' (Some [(''timeout'', PyInt 600)]) None 7 7 full_pool =
     (Inr (), full_pool)"
proof -
  have p: "''s2'' \<in> fst ` set (sessions full_pool)"
    by (simp add: full_pool_def)
  have "max_sessions full_pool = int (length (sessions full_pool))"
    by (simp add: full_pool_def test_pool_def)
  with p create_existing_session[OF p, of "Some [(''timeout'', PyInt 600)]" None 7 7]
  show ?thesis by simp
qed

lemma fold_cleanup_sessions:
  "sessions (fold (\<lambda>session_id m'. snd (cleanup_session session_id m')) ks m) =
     filter (\<lambda>(k, s). k \<notin> set ks) (sessions m)"
proof (induction ks arbitrary: m)
  case Nil
  then show ?case by simp
next
  case (Cons k ks)
  have "sessions (snd (cleanup_session k m)) = filter (\<lambda>(k', s). k \<noteq> k') (sessions m)"
    by (simp add: cleanup_session_sessions AList.delete_eq)
  with Cons.IH[of "snd (cleanup_session k m)"] show ?case
    by (auto intro: filter_cong)
qed

lemma fold_cleanup_fields:
  "max_sessions (fold (\<lambda>session_id m'. snd (cleanup_session session_id m')) ks m) =
     max_sessions m \<and>
   session_timeout (fold (\<lambda>session_id m'. snd (cleanup_session session_id m')) ks m) =
     session_timeout m"
  by (induction ks arbitrary: m) (simp_all add: cleanup_session_fields)

lemma idle_key_iff:
  assumes "distinct (map fst al)" and "(k, s) \<in> set al"
  shows "k \<in> set (map fst (filter (\<lambda>(k, s). P s) al)) \<longleftrightarrow> P s"
proof
  assume "k \<in> set (map fst (filter (\<lambda>(k, s). P s) al))"
  then obtain s' where in': "(k, s') \<in> set al" and p: "P s'" by auto
  from assms(1) assms(2) in' have "s = s'" by (rule eq_key_imp_eq_value)
  with p show "P s" by simp
next
  assume "P s"
  with assms(2) have "(k, s) \<in> set (filter (\<lambda>(k, s). P s) al)" by simp
  then show "k \<in> set (map fst (filter (\<lambda>(k, s). P s) al))" by force
qed

lemma length_filter_split:
  "length (filter (\<lambda>(k, s). P s) al) + length (filter (\<lambda>(k, s). \<not> P s) al) = length al"
  by (induction al) auto

text \<open>
  Claim C7. \<open>cleanup_idle_sessions\<close> leaves exactly the records whose idle time
  \<open>current_time - last_accessed\<close> does not exceed \<open>session_timeout\<close>, in their order:
  every record idle for longer is removed and every fresher one is kept. The number it
  returns is the number of records that were idle for longer, which is the number of
  records the pool has lost.
\<close>

theorem idle_sessions_removed:
  assumes "distinct (map fst (sessions m))"
  shows "sessions (snd (cleanup_idle_sessions now m)) =
       filter (\<lambda>(sid, s). \<not> now - last_accessed s > real_of_int (session_timeout m))
         (sessions m) \<and>
     fst (cleanup_idle_sessions now m) =
       length (filter (\<lambda>(sid, s). now - last_accessed s > real_of_int (session_timeout m))
         (sessions m)) \<and>
     fst (cleanup_idle_sessions now m) + length (sessions (snd (cleanup_idle_sessions now m))) =
       length (sessions m)"
proof -
  let ?idle = "\<lambda>s. now - last_accessed s > real_of_int (session_timeout m)"
  let ?ks = "idle_sessions now m"
  have ks: "?ks = map fst (filter (\<lambda>(sid, s). ?idle s) (sessions m))"
    by (simp add: idle_sessions_def)
  have "filter (\<lambda>(k, s). k \<notin> set ?ks) (sessions m) =
        filter (\<lambda>(sid, s). \<not> ?idle s) (sessions m)"
  proof (rule filter_cong[OF refl])
    fix x
    assume x: "x \<in> set (sessions m)"
    obtain k s where xs: "x = (k, s)" by (cases x)
    from idle_key_iff[OF assms, of k s ?idle] x xs
    have "k \<in> set ?ks \<longleftrightarrow> ?idle s" unfolding ks by simp
    with xs show "(case x of (k, s) \<Rightarrow> k \<notin> set ?ks) = (case x of (sid, s) \<Rightarrow> \<not> ?idle s)"
      by simp
  qed
  then have kept: "sessions (snd (cleanup_idle_sessions now m)) =
       filter (\<lambda>(sid, s). \<not> ?idle s) (sessions m)"
    by (simp add: cleanup_idle_sessions_def Let_def fold_cleanup_sessions)
  have count: "fst (cleanup_idle_sessions now m) =
       length (filter (\<lambda>(sid, s). ?idle s) (sessions m))"
    by (simp add: cleanup_idle_sessions_def Let_def ks)
  have "length (filter (\<lambda>(sid, s). ?idle s) (sessions m)) +
        length (filter (\<lambda>(sid, s). \<not> ?idle s) (sessions m)) = length (sessions m)"
    by (rule length_filter_split)
  then have total: "fst (cleanup_idle_sessions now m) +
      length (sessions (snd (cleanup_idle_sessions now m))) = length (sessions m)"
    unfolding kept count .
  show ?thesis by (intro conjI kept count total)
qed

text \<open>The theorem for the pool of the tests at time 100: \<open>session_1\<close> was last accessed
  twenty seconds ago and goes, \<open>session_2\<close> is fresh and stays, and the count is one.\<close>

theorem idle_sessions_removed_witness:
  "distinct (map fst (sessions two_pool)) \<and>
   map fst (sessions two_pool) = [''session_1'', ''session_2''] \<and>
   fst (cleanup_idle_sessions 100 two_pool) = 1 \<and>
   sessions (snd (cleanup_idle_sessions 100 two_pool)) =
     [(''session_2'', new_session ''session_2'' 100)]"
proof -
  have d: "distinct (map fst (sessions two_pool))"
    by (simp add: two_pool_def)
  have k: "map fst (sessions two_pool) = [''session_1'', ''session_2'']"
    by (simp add: two_pool_def)
  note r = idle_sessions_removed[OF d, of 100]
  have c: "fst (cleanup_idle_sessions 100 two_pool) = 1"
    using r[THEN conjunct2, THEN conjunct1]
    by (simp add: two_pool_def test_pool_def new_session_def)
  have s: "sessions (snd (cleanup_idle_sessions 100 two_pool)) =
     [(''session_2'', new_session ''session_2'' 100)]"
    using r[THEN conjunct1]
    by (simp add: two_pool_def test_pool_def new_session_def)
  show ?thesis by (intro conjI d k c s)
qed

lemma update_task_counts:
  "map_of al k = Some s \<Longrightarrow>
   map (\<lambda>(sid, s). task_count s) (AList.update k (s\<lparr>last_accessed := t\<rparr>) al) =
   map (\<lambda>(sid, s). task_count s) al"
  by (induction al) (auto split: if_splits)

lemma update_keys_present:
  "map_of al k = Some s \<Longrightarrow> map fst (AList.update k v al) = map fst al"
  by (induction al) (auto split: if_splits)

text \<open>
  Claim C8, as the code has it. \<open>get_session\<close> with a key of the pool returns the
  record with \<open>last_accessed\<close> set to the current time and stores it in place; the
  record's \<open>task_count\<close>, \<open>workdir\<close>, \<open>config\<close>, \<open>created_at\<close> and runtime handle are
  unchanged, and so are all other records, the order of the pool and its statistics.
  With a key that is not in the pool it returns \<open>None\<close> and leaves the pool unchanged.
\<close>

theorem get_session_touches_last_accessed:
  "(map_of (sessions m) sid = Some s \<longrightarrow>
      get_session sid now m =
        (Some (s\<lparr>last_accessed := now\<rparr>),
         m\<lparr>sessions := AList.update sid (s\<lparr>last_accessed := now\<rparr>) (sessions m)\<rparr>) \<and>
      last_accessed (s\<lparr>last_accessed := now\<rparr>) = now \<and>
      task_count (s\<lparr>last_accessed := now\<rparr>) = task_count s \<and>
      workdir (s\<lparr>last_accessed := now\<rparr>) = workdir s \<and>
      config (s\<lparr>last_accessed := now\<rparr>) = config s \<and>
      created_at (s\<lparr>last_accessed := now\<rparr>) = created_at s \<and>
      task_manager (s\<lparr>last_accessed := now\<rparr>) = task_manager s \<and>
      map_of (sessions (snd (get_session sid now m))) sid = Some (s\<lparr>last_accessed := now\<rparr>) \<and>
      (\<forall>k. k \<noteq> sid \<longrightarrow>
         map_of (sessions (snd (get_session sid now m))) k = map_of (sessions m) k) \<and>
      map fst (sessions (snd (get_session sid now m))) = map fst (sessions m) \<and>
      get_stats (snd (get_session sid now m)) = get_stats m) \<and>
   (map_of (sessions m) sid = None \<longrightarrow> get_session sid now m = (None, m))"
proof (intro conjI impI)
  assume "map_of (sessions m) sid = None"
  then show "get_session sid now m = (None, m)" by (simp add: get_session_def)
next
  assume f: "map_of (sessions m) sid = Some s"
  let ?s = "s\<lparr>last_accessed := now\<rparr>"
  show r: "get_session sid now m = (Some ?s, m\<lparr>sessions := AList.update sid ?s (sessions m)\<rparr>)"
    using f by (simp add: get_session_def Let_def)
  show "last_accessed ?s = now" "task_count ?s = task_count s" "workdir ?s = workdir s"
    "config ?s = config s" "created_at ?s = created_at s" "task_manager ?s = task_manager s"
    by simp_all
  show "map_of (sessions (snd (get_session sid now m))) sid = Some ?s"
    by (simp add: r update_conv')
  show "\<forall>k. k \<noteq> sid \<longrightarrow>
         map_of (sessions (snd (get_session sid now m))) k = map_of (sessions m) k"
    by (simp add: r update_conv')
  show k: "map fst (sessions (snd (get_session sid now m))) = map fst (sessions m)"
    using update_keys_present[OF f] by (simp add: r)
  have "length (sessions (snd (get_session sid now m))) = length (sessions m)"
    using k by (metis length_map)
  then show "get_stats (snd (get_session sid now m)) = get_stats m"
    using update_task_counts[OF f] by (simp add: r get_stats_def)
qed

text \<open>The theorem for the pool of five sessions, read at time 9: once for \<open>s2\<close>, once
  for a key the pool does not have.\<close>

theorem get_session_touches_last_accessed_witness:
  "map_of (sessions full_pool) ''s2'' = Some (new_session ''s2'' 2) \<and>
   fst (get_session ''s2'' 9 full_pool) = Some ((new_session ''s2'' 2)\<lparr>last_accessed := 9\<rparr>) \<and>
   get_stats (snd (get_session ''s2'' 9 full_pool)) = get_stats full_pool \<and>
   map_of (sessions full_pool) ''nonexistent'' = None \<and>
   get_session ''nonexistent'' 9 full_pool = (None, full_pool)"
proof -
  have f: "map_of (sessions full_pool) ''s2'' = Some (new_session ''s2'' 2)"
    by (simp add: full_pool_def)
  have n: "map_of (sessions full_pool) ''nonexistent'' = None"
    by (simp add: full_pool_def)
  note r = get_session_touches_last_accessed[where m = full_pool and now = 9]
  note found = r[where sid = "''s2''" and s = "new_session ''s2'' 2",
      THEN conjunct1, THEN mp, OF f]
  have a: "fst (get_session ''s2'' 9 full_pool) =
      Some ((new_session ''s2'' 2)\<lparr>last_accessed := 9\<rparr>)"
    using found[THEN conjunct1] by simp
  have b: "get_stats (snd (get_session ''s2'' 9 full_pool)) = get_stats full_pool"
    using found by (elim conjE)
  have c: "get_session ''nonexistent'' 9 full_pool = (None, full_pool)"
    using r[where sid = "''nonexistent''", THEN conjunct2, THEN mp, OF n] .
  show ?thesis by (intro conjI f a b n c)
qed

text \<open>
  Against claim C8 as stated: an access of \<open>s2\<close> at time 9 changes \<open>last_accessed\<close> from
  2 to 9 and leaves \<open>task_count\<close> at 0, in the record returned and in the pool.
\<close>

theorem get_session_counterexample:
  "map_of (sessions full_pool) ''s2'' = Some (new_session ''s2'' 2) \<and>
   map_option last_accessed (fst (get_session ''s2'' 9 full_pool)) = Some 9 \<and>
   map_option task_count (map_of (sessions full_pool) ''s2'') = Some 0 \<and>
   map_option task_count (fst (get_session ''s2'' 9 full_pool)) = Some 0 \<and>
   map_option task_count (map_of (sessions (snd (get_session ''s2'' 9 full_pool))) ''s2'') =
     Some 0 \<and>
   total_tasks (get_stats (snd (get_session ''s2'' 9 full_pool))) = 0"
  by (simp add: full_pool_def test_pool_def new_session_def get_session_def get_stats_def
      Let_def)

section \<open>The workflow\<close>















text \<open>
  The workflow on the executor of \<open>sandbox_executor.py\<close>, with a runtime whose run
  raises: the exception comes back from \<open>execute_task\<close> as a failed step, and the
  workflow stops at the first instruction.
\<close>

lemma workflow_on_executor:
  "execute_python_workflow True (executor_call raising_runtime (Inr []) mock_ctx)
     (Instruction_list [''a'', ''b'']) mock_executor =
   (Inr \<lparr>wf_success = False,
     wf_steps = [\<lparr>step = 1, instruction = ''a'',
                  step_result = \<lparr>success = False, result_output = [],
                    error = Some ''invalid syntax on line 5'', artifacts = [],
                    execution_time = 1 / 2, variables = []\<rparr>\<rparr>],
     wf_error = Some ''Step 1 failed: invalid syntax on line 5'',
     wf_final_output = None, wf_artifacts = None, wf_total_time = Some 0\<rparr>,
    mock_executor\<lparr>task_managers :=
      [(''test_chat_test_user'',
        TaskManager (PathDiv (Path ''aipyapp_test'') ''test_chat_test_user'') [])]\<rparr>)"
proof -
  let ?ex = "mock_executor\<lparr>task_managers :=
      [(''test_chat_test_user'',
        TaskManager (PathDiv (Path ''aipyapp_test'') ''test_chat_test_user'') [])]\<rparr>"
  let ?r = "\<lparr>success = False, result_output = [],
      error = Some ''invalid syntax on line 5'', artifacts = [],
      execution_time = 1 / 2, variables = []\<rparr>"
  have call: "executor_call raising_runtime (Inr []) mock_ctx mock_executor ''a'' [] =
      (Inr ?r, ?ex)"
    by (simp add: executor_call_def execute_task_def get_task_manager_def
        execution_session_id_def mock_ctx_def mock_executor_def Let_def merge_context_def
        dict_update_def create_aipyapp_context_def
        execute_in_aipyapp_def raising_runtime_def wait_for_def failed_result_def
        format_result_for_nekro_def get_default_def SyntaxError_def)
  then show ?thesis
    by (simp add: execute_python_workflow_def Let_def return_dumps_def json_dumps_def
        str_int_def str_optional_def)
qed

end
